theory Spec2Isabelle
  imports Main
begin

section \<open>Tokens, positions, nodes and errors\<close>

text \<open>
  A rune is a code point delivered by the buffered reader. The model keeps the code points
  that fit one \<open>char\<close>; every character the scanner treats specially is ASCII, all others
  fall into the same default branches.
\<close>

type_synonym rune = char

text \<open>
  Modelled from the spec: the token enumeration (its declaration is not part of
  \<^verbatim>\<open>parse.go\<close>). \<open>RuneTok r\<close> is the conversion \<^verbatim>\<open>Token(r)\<close> of a rune, which the parser
  uses for the newline token \<^verbatim>\<open>'\n'\<close> and for a quote delimiter \<^verbatim>\<open>Token(q)\<close>.
  \<open>OR\<close> is the pipe, \<open>LOR\<close> is \<^verbatim>\<open>||\<close>, \<open>AND\<close> is the background ampersand, \<open>LAND\<close> is
  \<^verbatim>\<open>&&\<close>, \<open>EXP\<close> is the dollar sign.
\<close>

datatype Token =
    EOF | COMMENT | LIT
  | IF | THEN | ELIF | ELSE | FI | WHILE | FOR | IN | DO | DONE
  | AND | LAND | OR | LOR
  | EXP | LPAREN | RPAREN | LBRACE | RBRACE
  | RDRIN | RDROUT | APPEND
  | SEMICOLON
  | RuneTok rune

record position =
  line :: int
  col :: int

text \<open>
  Modelled from the spec: the node types (their declarations are not part of
  \<^verbatim>\<open>parse.go\<close>); the fields are the ones \<^verbatim>\<open>parse.go\<close> writes. A field of interface type
  \<^verbatim>\<open>Node\<close> that is filled through the builder stack may stay \<^verbatim>\<open>nil\<close>, so it is an option.
\<close>

datatype Node =
    Lit string
  | Word "Node list"
  | ParamExp string
  | CmdSubst "Node list"
  | Subshell "Node list"
  | Block "Node list"
  | IfStmt "Node option" "Node list" "Node list" "Node list"
  | Elif "Node option" "Node list"
  | WhileStmt "Node option" "Node list"
  | ForStmt Node "Node list" "Node list"
  | FuncDecl Node "Node option"
  | Command "Node list" bool
  | BinaryExpr Token Node "Node option"
  | Redirect Token "Node option"
  | Comment string

record Prog =
  Stmts :: "Node list"

text \<open>
  The text of a \<^verbatim>\<open>lineErr\<close> is \<^verbatim>\<open>fmt.Sprintf(format, v...)\<close>. The rendering belongs to the
  Go library and to the display names of the tokens, so the model keeps the format and its
  operands: \<open>TokName t\<close> is \<^verbatim>\<open>t.String()\<close>, \<open>Str s\<close> a string under \<^verbatim>\<open>%s\<close>, \<open>Quoted s\<close> a
  string under \<^verbatim>\<open>%q\<close>.
\<close>

datatype fmtArg = TokName Token | Str string | Quoted string

datatype message = Sprintf string "fmtArg list"

record lineErr =
  fname :: string
  pos :: position
  text' :: message

text \<open>What the reader can answer besides a rune: \<^verbatim>\<open>io.EOF\<close> or another read fault.\<close>

datatype ioerr = IoEOF | IoFault string

datatype error = LineErr lineErr | ReadErr ioerr

text \<open>
  A call returns, panics, or (for the recursive-descent rules, which carry a bound on
  their recursion) runs out of that bound.
\<close>

datatype 'a res = Done 'a | Panic string | Timeout

definition bindR :: "'a res \<Rightarrow> ('a \<Rightarrow> 'b res) \<Rightarrow> 'b res" where
  "bindR m f = (case m of Done x \<Rightarrow> f x | Panic s \<Rightarrow> Panic s | Timeout \<Rightarrow> Timeout)"

section \<open>The parser state\<close>

text \<open>
  The buffered reader: the answers it still has to give (after the last one it answers
  \<^verbatim>\<open>io.EOF\<close> for ever), and the rune that \<^verbatim>\<open>UnreadRune\<close> can give back, which exists only
  right after a successful \<^verbatim>\<open>ReadRune\<close>.
\<close>

datatype readEv = Rune rune | Fault string

record reader =
  src :: "readEv list"
  lastRune :: "rune option"

text \<open>
  The builder stack holds pointers to fields of local structs. A pointer is a cell of the
  store: \<open>SeqPtr a\<close> is a \<^verbatim>\<open>*[]Node\<close>, \<open>NodePtr a\<close> a \<^verbatim>\<open>*Node\<close>. Cell \<open>0\<close> of \<open>seqs\<close> is
  \<^verbatim>\<open>p.prog.Stmts\<close>.
\<close>

datatype ptr = SeqPtr nat | NodePtr nat

record parser =
  rd :: reader
  name :: string
  err :: "error option"
  spaced :: bool
  ltok :: Token
  tok :: Token
  lval :: string
  val :: string
  bpos :: position
  lpos :: position
  pos :: position
  npos :: position
  seqs :: "nat \<Rightarrow> Node list"
  nodes :: "nat \<Rightarrow> Node option"
  fresh :: nat
  stack :: "ptr list"

definition reserved :: "rune \<Rightarrow> bool" where
  "reserved c \<longleftrightarrow> c \<in> set [CHR ''\<newline>'', CHR ''&'', CHR ''>'', CHR ''<'', CHR ''|'',
                            CHR '';'', CHR ''('', CHR '')'', CHR ''$'']"

definition starters :: "rune \<Rightarrow> bool" where
  "starters c \<longleftrightarrow> c \<in> set [CHR ''{'', CHR ''}'', CHR ''#'']"

definition space :: "rune \<Rightarrow> bool" where
  "space c \<longleftrightarrow> c \<in> set [CHR '' '', CHR 0x09]"

definition quote :: "rune \<Rightarrow> bool" where
  "quote c \<longleftrightarrow> c \<in> set [CHR 0x22, CHR 0x27, CHR 0x60]"

definition letter :: "rune \<Rightarrow> bool" where
  "letter c \<longleftrightarrow> c \<in> set ''abcdefghijklmnopqrstuvwxyzABCDEFGHIJKLMNOPQRSTUVWXYZ''"

definition digit :: "rune \<Rightarrow> bool" where
  "digit c \<longleftrightarrow> c \<in> set ''0123456789''"

text \<open>The regular expression \<^verbatim>\<open>^[a-zA-Z_][a-zA-Z0-9_]*$\<close> of \<^verbatim>\<open>identRe\<close>.\<close>

definition identRe :: "string \<Rightarrow> bool" where
  "identRe s =
     (case s of
        [] \<Rightarrow> False
      | c # cs \<Rightarrow> (letter c \<or> c = CHR ''_'')
                  \<and> list_all (\<lambda>d. letter d \<or> digit d \<or> d = CHR ''_'') cs)"

section \<open>Reading runes\<close>

definition ReadRune :: "reader \<Rightarrow> (ioerr + rune) \<times> reader" where
  "ReadRune b =
     (case src b of
        [] \<Rightarrow> (Inl IoEOF, b\<lparr>lastRune := None\<rparr>)
      | Rune c # rest \<Rightarrow> (Inr c, b\<lparr>src := rest, lastRune := Some c\<rparr>)
      | Fault e # rest \<Rightarrow> (Inl (IoFault e), b\<lparr>src := rest, lastRune := None\<rparr>))"

definition UnreadRune :: "reader \<Rightarrow> reader option" where
  "UnreadRune b =
     (case lastRune b of
        None \<Rightarrow> None
      | Some c \<Rightarrow> Some (b\<lparr>src := Rune c # src b, lastRune := None\<rparr>))"

definition advance :: "Token \<Rightarrow> string \<Rightarrow> parser \<Rightarrow> parser" where
  "advance t v p =
     (let p1 = (if tok p \<noteq> EOF then p\<lparr>ltok := tok p, lval := val p\<rparr> else p)
      in p1\<lparr>tok := t, val := v\<rparr>)"

definition setEOF :: "parser \<Rightarrow> parser" where
  "setEOF p = advance EOF ''EOF'' p"

definition errPass :: "error \<Rightarrow> parser \<Rightarrow> parser" where
  "errPass e p = setEOF (if err p = None then p\<lparr>err := Some e\<rparr> else p)"

definition moveWith :: "rune \<Rightarrow> parser \<Rightarrow> parser" where
  "moveWith c p =
     (let p1 = p\<lparr>bpos := npos p\<rparr>
      in if c = CHR ''\<newline>''
         then p1\<lparr>npos := \<lparr>line = line (npos p1) + 1, col = 1\<rparr>\<rparr>
         else p1\<lparr>npos := (npos p1)\<lparr>col := col (npos p1) + 1\<rparr>\<rparr>)"

definition readRune :: "parser \<Rightarrow> (ioerr + rune) \<times> parser" where
  "readRune p =
     (case ReadRune (rd p) of
        (Inl e, b) \<Rightarrow>
          (Inl e, if e = IoEOF then setEOF (p\<lparr>rd := b\<rparr>) else errPass (ReadErr e) (p\<lparr>rd := b\<rparr>))
      | (Inr c, b) \<Rightarrow> (Inr c, moveWith c (p\<lparr>rd := b\<rparr>)))"

definition unreadRune :: "parser \<Rightarrow> parser res" where
  "unreadRune p =
     (case UnreadRune (rd p) of
        None \<Rightarrow> Panic ''bufio: invalid use of UnreadRune''
      | Some b \<Rightarrow> Done (p\<lparr>rd := b, npos := bpos p\<rparr>))"

text \<open>On a failed read the rune returned by \<^verbatim>\<open>ReadRune\<close> is \<open>0\<close>.\<close>

definition runeOf :: "ioerr + rune \<Rightarrow> rune" where
  "runeOf x = (case x of Inl e \<Rightarrow> CHR 0x00 | Inr c \<Rightarrow> c)"

definition readOnly :: "rune \<Rightarrow> parser \<Rightarrow> bool \<times> parser" where
  "readOnly wanted p =
     (case ReadRune (rd p) of (x, b) \<Rightarrow>
        if runeOf x = wanted then (True, moveWith (runeOf x) (p\<lparr>rd := b\<rparr>))
        else (case x of
                Inr c \<Rightarrow> (False, p\<lparr>rd := (case UnreadRune b of None \<Rightarrow> b | Some b1 \<Rightarrow> b1)\<rparr>)
              | Inl e \<Rightarrow> (False, p\<lparr>rd := b\<rparr>)))"

section \<open>Errors\<close>

definition posErr :: "position \<Rightarrow> string \<Rightarrow> fmtArg list \<Rightarrow> parser \<Rightarrow> parser" where
  "posErr ps format v p =
     errPass (LineErr \<lparr>fname = name p, pos = ps, text' = Sprintf format v\<rparr>) p"

definition curErr :: "string \<Rightarrow> fmtArg list \<Rightarrow> parser \<Rightarrow> parser" where
  "curErr format v p = posErr (pos p) format v p"

text \<open>
  The argument of \<^verbatim>\<open>errWantedStr\<close> is a string; \<^verbatim>\<open>errWanted\<close> passes \<^verbatim>\<open>tok.String()\<close>,
  which stays the operand \<open>TokName tok\<close>.
\<close>

definition errWantedStr :: "fmtArg \<Rightarrow> parser \<Rightarrow> parser" where
  "errWantedStr s p =
     (let p1 = (if tok p = EOF then p\<lparr>pos := npos p\<rparr> else p)
      in curErr ''unexpected token %s - wanted %s'' [TokName (tok p1), s] p1)"

definition errWanted :: "Token \<Rightarrow> parser \<Rightarrow> parser" where
  "errWanted t p = errWantedStr (TokName t) p"

definition errAfterStr :: "string \<Rightarrow> parser \<Rightarrow> parser" where
  "errAfterStr s p = curErr ''unexpected token %s after %s'' [TokName (tok p), Str s] p"

section \<open>The scanner\<close>

text \<open>
  Modelled from the spec: \<^verbatim>\<open>doToken\<close> (declared with the token enumeration, outside
  \<^verbatim>\<open>parse.go\<close>). It selects the operator token of a character; for \<^verbatim>\<open>&\<close>, \<^verbatim>\<open>|\<close> and \<^verbatim>\<open>>\<close>
  it probes one further code point with \<^verbatim>\<open>readOnly\<close> and, if that is the same character,
  consumes it for the two-character operator. Any other rune is its own conversion.
\<close>

definition doToken :: "rune \<Rightarrow> parser \<Rightarrow> Token \<times> parser" where
  "doToken c p =
     (if c = CHR ''#'' then (COMMENT, p)
      else if c = CHR ''\<newline>'' then (RuneTok (CHR ''\<newline>''), p)
      else if c = CHR ''&'' then
        (case readOnly (CHR ''&'') p of (b, p1) \<Rightarrow> (if b then LAND else AND, p1))
      else if c = CHR ''|'' then
        (case readOnly (CHR ''|'') p of (b, p1) \<Rightarrow> (if b then LOR else OR, p1))
      else if c = CHR ''>'' then
        (case readOnly (CHR ''>'') p of (b, p1) \<Rightarrow> (if b then APPEND else RDROUT, p1))
      else if c = CHR ''<'' then (RDRIN, p)
      else if c = CHR '';'' then (SEMICOLON, p)
      else if c = CHR ''('' then (LPAREN, p)
      else if c = CHR '')'' then (RPAREN, p)
      else if c = CHR ''{'' then (LBRACE, p)
      else if c = CHR ''}'' then (RBRACE, p)
      else if c = CHR ''$'' then (EXP, p)
      else (RuneTok c, p))"

lemma ReadRune_src:
  "ReadRune b = (x, b1) \<Longrightarrow>
     length (src b1) \<le> length (src b) \<and> (\<forall>c. x = Inr c \<longrightarrow> length (src b1) < length (src b))"
  by (auto simp: ReadRune_def split: list.splits readEv.splits)

lemma src_setEOF [simp]: "rd (setEOF p) = rd p"
  by (simp add: setEOF_def advance_def Let_def)

lemma src_errPass [simp]: "rd (errPass e p) = rd p"
  by (simp add: errPass_def)

lemma src_moveWith [simp]: "rd (moveWith c p) = rd p"
  by (simp add: moveWith_def Let_def)

lemma src_errWanted [simp]: "rd (errWanted t p) = rd p"
  by (simp add: errWanted_def errWantedStr_def curErr_def posErr_def Let_def)

lemma readRune_src:
  "readRune p = (x, p1) \<Longrightarrow>
     length (src (rd p1)) \<le> length (src (rd p))
     \<and> (\<forall>c. x = Inr c \<longrightarrow> length (src (rd p1)) < length (src (rd p)))"
  using ReadRune_src [of "rd p"]
  by (auto simp: readRune_def split: prod.splits sum.splits if_splits)

lemma readRune_Inr_src:
  "readRune p = (Inr c, p1) \<Longrightarrow> length (src (rd p1)) < length (src (rd p))"
  using readRune_src by blast

lemma readRune_le_src:
  "readRune p = (x, p1) \<Longrightarrow> length (src (rd p1)) \<le> length (src (rd p))"
  using readRune_src by blast

lemma readOnly_src:
  "readOnly w p = (b, p1) \<Longrightarrow>
     length (src (rd p1)) \<le> length (src (rd p))
     \<and> (b \<longrightarrow> w \<noteq> CHR 0x00 \<longrightarrow> length (src (rd p1)) < length (src (rd p)))"
  by (auto simp: readOnly_def ReadRune_def UnreadRune_def runeOf_def
           split: prod.splits sum.splits if_splits list.splits readEv.splits option.splits)

lemma doToken_src:
  "doToken c p = (t, p1) \<Longrightarrow> length (src (rd p1)) \<le> length (src (rd p))"
  by (auto simp: doToken_def split: if_splits prod.splits dest: readOnly_src)

lemma bindR_cong [fundef_cong]:
  "m = m1 \<Longrightarrow> (\<And>x. m1 = Done x \<Longrightarrow> f x = f1 x) \<Longrightarrow> bindR m f = bindR m1 f1"
  by (auto simp: bindR_def split: res.splits)

text \<open>
  One turn of the \<^verbatim>\<open>switch\<close> in the loop of \<^verbatim>\<open>readLit\<close>, on the rune \<open>c\<close> with the open quote
  \<open>q\<close> (\<open>0\<close> when none is open): whether the loop is left, the runes so far, the quote and
  the parser.
\<close>

definition readLit_switch ::
  "string \<Rightarrow> rune \<Rightarrow> rune \<Rightarrow> parser \<Rightarrow> (bool \<times> string \<times> rune \<times> parser) res" where
  "readLit_switch rs q c p =
     (if q \<noteq> CHR 0x27 \<and> c = CHR 0x5C then
        (case readRune p of (x, p1) \<Rightarrow>
           Done (False,
                 if runeOf x \<noteq> CHR ''\<newline>'' then rs @ [CHR 0x5C, runeOf x] else rs, q, p1))
      else if q \<noteq> CHR 0x27 \<and> c = CHR ''$'' then
        bindR (unreadRune p) (\<lambda>p1. Done (True, rs, q, p1))
      else if q \<noteq> CHR 0x00 then
        Done (False, rs @ [c], if c = q then CHR 0x00 else q, p)
      else if quote c then Done (False, rs @ [c], c, p)
      else if reserved c \<or> space c then
        bindR (unreadRune p) (\<lambda>p1. Done (True, rs, q, p1))
      else Done (False, rs @ [c], q, p))"

lemma readLit_switch_src:
  "readLit_switch rs q c p = Done (False, rs1, q1, p1) \<Longrightarrow>
     length (src (rd p1)) \<le> length (src (rd p))"
  by (auto simp: readLit_switch_def bindR_def split: if_splits prod.splits res.splits
           dest: readRune_le_src)

function readLit_loop :: "string \<Rightarrow> rune \<Rightarrow> rune \<Rightarrow> parser \<Rightarrow> (string \<times> parser) res" where
  "readLit_loop rs q c p =
     bindR (readLit_switch rs q c p) (\<lambda>(brk, rs1, q1, p1).
       if brk then Done (rs1, p1)
       else (case readRune p1 of
               (Inl e, p2) \<Rightarrow> Done (rs1, if q1 \<noteq> CHR 0x00 then errWanted (RuneTok q1) p2 else p2)
             | (Inr c2, p2) \<Rightarrow> readLit_loop rs1 q1 c2 p2))"
  by pat_completeness auto
termination
proof (relation "measure (\<lambda>(rs, q, c, p). length (src (rd p)))")
  show "wf (measure (\<lambda>(rs, q, c, p). length (src (rd p))))"
    by simp
next
  fix rs q c p x brk y rs1 z q1 p1 w c2 p2
  assume sw: "readLit_switch rs q c p = Done x" "(brk, y) = x" "(rs1, z) = y" "(q1, p1) = z"
    and nb: "\<not> brk" and rr: "(w, p2) = readRune p1" "w = Inr c2"
  from sw nb have "readLit_switch rs q c p = Done (False, rs1, q1, p1)"
    by auto
  then have "length (src (rd p1)) \<le> length (src (rd p))"
    by (rule readLit_switch_src)
  moreover from rr have "length (src (rd p2)) < length (src (rd p1))"
    using readRune_Inr_src [of p1 c2 p2] by simp
  ultimately show "((rs1, q1, c2, p2), rs, q, c, p) \<in> measure (\<lambda>(rs, q, c, p). length (src (rd p)))"
    by simp
qed

declare readLit_loop.simps [simp del]

definition readLit :: "rune \<Rightarrow> parser \<Rightarrow> (string \<times> parser) res" where
  "readLit c p = readLit_loop [] (CHR 0x00) c p"

function readUntil_loop :: "Token \<Rightarrow> string \<Rightarrow> parser \<Rightarrow> (string \<times> bool) \<times> parser" where
  "readUntil_loop t rs p =
     (case readRune p of
        (Inl e, p1) \<Rightarrow> ((rs, False), p1)
      | (Inr c, p1) \<Rightarrow>
          (case doToken c p1 of (t1, p2) \<Rightarrow>
             if t = t1 then ((rs, True), p2) else readUntil_loop t (rs @ [c]) p2))"
  by pat_completeness auto
termination
proof (relation "measure (\<lambda>(t, rs, p). length (src (rd p)))")
  show "wf (measure (\<lambda>(t, rs, p). length (src (rd p))))"
    by simp
next
  fix t :: Token and rs p x p1 c y t1 p2
  assume rr: "(x, p1) = readRune p" "x = Inr c" and dt: "(t1, p2) = doToken c p1"
  from rr have "length (src (rd p1)) < length (src (rd p))"
    using readRune_Inr_src [of p c p1] by simp
  moreover from dt have "length (src (rd p2)) \<le> length (src (rd p1))"
    using doToken_src [of c p1 t1 p2] by simp
  ultimately show "((t, rs @ [c], p2), t, rs, p) \<in> measure (\<lambda>(t, rs, p). length (src (rd p)))"
    by simp
qed

declare readUntil_loop.simps [simp del]

definition readUntil :: "Token \<Rightarrow> parser \<Rightarrow> (string \<times> bool) \<times> parser" where
  "readUntil t p = readUntil_loop t [] p"

definition readUntilWant :: "Token \<Rightarrow> parser \<Rightarrow> string \<times> parser" where
  "readUntilWant t p =
     (case readUntil t p of ((s, found), p1) \<Rightarrow> (s, if \<not> found then errWanted t p1 else p1))"

definition readLine :: "parser \<Rightarrow> string \<times> parser" where
  "readLine p = (case readUntil (RuneTok (CHR ''\<newline>'')) p of ((s, found), p1) \<Rightarrow> (s, p1))"

text \<open>The loop at the head of \<^verbatim>\<open>next\<close>: the first rune that is no space, if a read succeeds.\<close>

function skipSpace :: "parser \<Rightarrow> rune option \<times> parser" where
  "skipSpace p =
     (case readRune p of
        (Inl e, p1) \<Rightarrow> (None, p1)
      | (Inr c, p1) \<Rightarrow> if \<not> space c then (Some c, p1) else skipSpace (p1\<lparr>spaced := True\<rparr>))"
  by pat_completeness auto
termination
proof (relation "measure (\<lambda>p. length (src (rd p)))")
  show "wf (measure (\<lambda>p. length (src (rd p))))"
    by simp
next
  fix p x p1 c
  assume rr: "(x, p1) = readRune p" "x = Inr c"
  then have "length (src (rd p1)) < length (src (rd p))"
    using readRune_Inr_src [of p c p1] by simp
  then show "(p1\<lparr>spaced := True\<rparr>, p) \<in> measure (\<lambda>p. length (src (rd p)))"
    by simp
qed

declare skipSpace.simps [simp del]

lemma skipSpace_src: "skipSpace p = (x, p1) \<Longrightarrow> length (src (rd p1)) \<le> length (src (rd p))"
proof (induction p arbitrary: x p1 rule: skipSpace.induct)
  case (1 p)
  obtain y q where rr: "readRune p = (y, q)"
    by (cases "readRune p")
  show ?case
  proof (cases y)
    case (Inl e)
    with rr "1.prems" show ?thesis
      using readRune_le_src [OF rr] by (simp add: skipSpace.simps [of p])
  next
    case (Inr c)
    show ?thesis
    proof (cases "space c")
      case False
      with rr Inr "1.prems" show ?thesis
        using readRune_le_src [OF rr] by (simp add: skipSpace.simps [of p])
    next
      case True
      with rr Inr "1.prems" have "skipSpace (q\<lparr>spaced := True\<rparr>) = (x, p1)"
        by (simp add: skipSpace.simps [of p])
      then have "length (src (rd p1)) \<le> length (src (rd (q\<lparr>spaced := True\<rparr>)))"
        using "1.IH" [of y q c x p1] rr Inr True by simp
      with readRune_le_src [OF rr] show ?thesis
        by simp
    qed
  qed
qed

text \<open>
  The second and third arm of the \<^verbatim>\<open>switch\<close> of \<^verbatim>\<open>next\<close>: an operator, a comment or a
  newline for a reserved character or a starter, a literal otherwise.
\<close>

definition next_token :: "rune \<Rightarrow> parser \<Rightarrow> parser res" where
  "next_token c p =
     (if reserved c \<or> starters c then
        (if c = CHR ''#'' then (case readLine p of (s, p1) \<Rightarrow> Done (advance COMMENT s p1))
         else if c = CHR ''\<newline>'' then Done (advance (RuneTok (CHR ''\<newline>'')) [] p)
         else (case doToken c p of (t, p1) \<Rightarrow> Done (advance t [] p1)))
      else bindR (readLit c p) (\<lambda>(s, p1). Done (advance LIT s p1)))"

function next' :: "parser \<Rightarrow> parser res" where
  "next' p =
     (case skipSpace (p\<lparr>lpos := pos p, spaced := False\<rparr>) of
        (None, p1) \<Rightarrow> Done p1
      | (Some c, p1) \<Rightarrow>
          (let p2 = p1\<lparr>pos := (npos p1)\<lparr>col := col (npos p1) - 1\<rparr>\<rparr>
           in if c = CHR 0x5C then
                (case readOnly (CHR ''\<newline>'') p2 of
                   (True, p3) \<Rightarrow> next' p3
                 | (False, p3) \<Rightarrow> next_token c p3)
              else next_token c p2))"
  by pat_completeness auto
termination
proof (relation "measure (\<lambda>p. length (src (rd p)))")
  show "wf (measure (\<lambda>p. length (src (rd p))))"
    by simp
next
  fix p x p1 c p2 y p3
  assume sk: "(x, p1) = skipSpace (p\<lparr>lpos := pos p, spaced := False\<rparr>)"
    and "x = Some c"
    and p2: "p2 = p1\<lparr>pos := (npos p1)\<lparr>col := col (npos p1) - 1\<rparr>\<rparr>"
    and "c = CHR 0x5C"
    and ro: "(y, p3) = readOnly (CHR ''\<newline>'') p2" "y = True"
  from sk have "length (src (rd p1)) \<le> length (src (rd p))"
    using skipSpace_src [of "p\<lparr>lpos := pos p, spaced := False\<rparr>" x p1] by simp
  moreover from ro p2 have "length (src (rd p3)) < length (src (rd p1))"
    using readOnly_src [of "CHR ''\<newline>''" p2 y p3] by simp
  ultimately show "(p3, p) \<in> measure (\<lambda>p. length (src (rd p)))"
    by simp
qed

declare next'.simps [simp del]

section \<open>Tokens and keywords\<close>

definition reservedLits :: "Token \<Rightarrow> string" where
  "reservedLits t =
     (case t of
        IF \<Rightarrow> ''if'' | THEN \<Rightarrow> ''then'' | ELIF \<Rightarrow> ''elif'' | ELSE \<Rightarrow> ''else'' | FI \<Rightarrow> ''fi''
      | WHILE \<Rightarrow> ''while'' | FOR \<Rightarrow> ''for'' | IN \<Rightarrow> ''in'' | DO \<Rightarrow> ''do'' | DONE \<Rightarrow> ''done''
      | _ \<Rightarrow> [])"

definition peek :: "Token \<Rightarrow> parser \<Rightarrow> bool" where
  "peek t p \<longleftrightarrow> tok p = t \<or> (tok p = LIT \<and> val p = reservedLits t)"

definition got :: "Token \<Rightarrow> parser \<Rightarrow> (bool \<times> parser) res" where
  "got t p = (if peek t p then bindR (next' p) (\<lambda>p1. Done (True, p1)) else Done (False, p))"

definition want :: "Token \<Rightarrow> parser \<Rightarrow> parser res" where
  "want t p = (if \<not> peek t p then Done (errWanted t p) else next' p)"

section \<open>The builder stack\<close>

text \<open>The top of the stack is the last element, as in the slice.\<close>

definition add :: "Node \<Rightarrow> parser \<Rightarrow> parser res" where
  "add n p =
     (if stack p = [] then Panic ''index out of range''
      else (case last (stack p) of
              SeqPtr a \<Rightarrow> Done (p\<lparr>seqs := (seqs p)(a := seqs p a @ [n])\<rparr>)
            | NodePtr a \<Rightarrow>
                (case nodes p a of
                   Some m \<Rightarrow> Panic ''single node set twice''
                 | None \<Rightarrow> Done (p\<lparr>nodes := (nodes p)(a := Some n)\<rparr>))))"

definition pop :: "parser \<Rightarrow> parser res" where
  "pop p =
     (if stack p = [] then Panic ''slice bounds out of range''
      else Done (p\<lparr>stack := butlast (stack p)\<rparr>))"

definition push :: "ptr \<Rightarrow> parser \<Rightarrow> parser" where
  "push v p = p\<lparr>stack := stack p @ [v]\<rparr>"

definition popAdd :: "Node \<Rightarrow> parser \<Rightarrow> parser res" where
  "popAdd n p = bindR (pop p) (add n)"

text \<open>
  A local struct with a \<^verbatim>\<open>[]Node\<close> field (\<^verbatim>\<open>var w Word\<close>) or a \<^verbatim>\<open>Node\<close> field
  (\<^verbatim>\<open>var r Redirect\<close>) is a new cell of the store, zero-initialised.
\<close>

definition newSeq :: "parser \<Rightarrow> nat \<times> parser" where
  "newSeq p = (fresh p, p\<lparr>fresh := fresh p + 1, seqs := (seqs p)(fresh p := [])\<rparr>)"

definition newNode :: "parser \<Rightarrow> nat \<times> parser" where
  "newNode p = (fresh p, p\<lparr>fresh := fresh p + 1, nodes := (nodes p)(fresh p := None)\<rparr>)"

section \<open>The grammar rules\<close>

text \<open>
  The rules call each other through the parser state, so their recursion is bounded by a
  counter: a rule with the counter at \<open>0\<close> gives \<open>Timeout\<close>, and each call of \<^verbatim>\<open>command\<close> and
  each turn of a loop takes one from it. A rule that takes \<open>cmd\<close> calls \<^verbatim>\<open>p.command\<close> through
  it, one that takes \<open>cl\<close> calls \<^verbatim>\<open>p.commandsLimited(RPAREN)\<close> through it.
\<close>

text \<open>The inner \<^verbatim>\<open>switch\<close> of \<^verbatim>\<open>word\<close>, after \<^verbatim>\<open>p.got(EXP)\<close>.\<close>

definition word_exp :: "(parser \<Rightarrow> (nat \<times> parser) res) \<Rightarrow> parser \<Rightarrow> parser res" where
  "word_exp cl p =
     (if peek LBRACE p then
        (case readUntilWant RBRACE p of (s, p1) \<Rightarrow> bindR (add (ParamExp s) p1) next')
      else
        bindR (got LPAREN p) (\<lambda>(b, p1).
          if b then
            (case newSeq p1 of (cs, p2) \<Rightarrow>
               bindR (cl (push (SeqPtr cs) p2)) (\<lambda>(n, p3).
               bindR (popAdd (CmdSubst (seqs p3 cs)) p3) (want RPAREN)))
          else
            bindR (want LIT p1) (\<lambda>p2. add (Lit (CHR ''$'' # lval p2)) p2)))"

text \<open>The loop \<^verbatim>\<open>parts\<close> of \<^verbatim>\<open>word\<close>; \<open>w\<close> is the cell of \<^verbatim>\<open>w.Parts\<close>.\<close>

primrec word_loop ::
  "(parser \<Rightarrow> (nat \<times> parser) res) \<Rightarrow> nat \<Rightarrow> nat \<Rightarrow> parser \<Rightarrow> parser res" where
  "word_loop cl w 0 = (\<lambda>p. Timeout)"
| "word_loop cl w (Suc k) = (\<lambda>p.
     if tok p = EOF then Done p
     else if length (seqs p w) > 0 \<and> spaced p then Done p
     else
       bindR (got LIT p) (\<lambda>(b, p1).
         if b then bindR (add (Lit (lval p1)) p1) (word_loop cl w k)
         else
           bindR (got EXP p1) (\<lambda>(b, p2).
             if b then bindR (word_exp cl p2) (word_loop cl w k)
             else Done p2)))"

definition word :: "(parser \<Rightarrow> (nat \<times> parser) res) \<Rightarrow> nat \<Rightarrow> parser \<Rightarrow> parser res" where
  "word cl k p =
     (case newSeq p of (w, p1) \<Rightarrow>
        bindR (word_loop cl w k (push (SeqPtr w) p1)) (\<lambda>p2.
          let p3 = (if length (seqs p2 w) = 0 then errWantedStr (Str ''word'') p2 else p2)
          in popAdd (Word (seqs p3 w)) p3))"

primrec wordList_loop ::
  "(parser \<Rightarrow> (nat \<times> parser) res) \<Rightarrow> nat \<Rightarrow> nat \<Rightarrow> nat \<Rightarrow> parser \<Rightarrow> (nat \<times> parser) res" where
  "wordList_loop cl k0 count 0 = (\<lambda>p. Timeout)"
| "wordList_loop cl k0 count (Suc k) = (\<lambda>p.
     if tok p = EOF then Done (count, p)
     else
       bindR (got SEMICOLON p) (\<lambda>(b, p1).
         if b then Done (count, p1)
         else
           bindR (got (RuneTok (CHR ''\<newline>'')) p1) (\<lambda>(b, p2).
             if b then Done (count, p2)
             else bindR (word cl k0 p2) (wordList_loop cl k0 (count + 1) k))))"

definition wordList ::
  "(parser \<Rightarrow> (nat \<times> parser) res) \<Rightarrow> nat \<Rightarrow> parser \<Rightarrow> (nat \<times> parser) res" where
  "wordList cl k p = wordList_loop cl k 0 k p"

definition gotRedirect ::
  "(parser \<Rightarrow> (nat \<times> parser) res) \<Rightarrow> nat \<Rightarrow> parser \<Rightarrow> (bool \<times> parser) res" where
  "gotRedirect cl k p =
     (case newNode p of (r, p0) \<Rightarrow>
        bindR (got RDROUT (push (NodePtr r) p0)) (\<lambda>(b, p1).
          if b then
            bindR (word cl k p1) (\<lambda>p2.
            bindR (popAdd (Redirect RDROUT (nodes p2 r)) p2) (\<lambda>p3. Done (True, p3)))
          else
            bindR (got APPEND p1) (\<lambda>(b, p2).
              if b then
                bindR (word cl k p2) (\<lambda>p3.
                bindR (popAdd (Redirect APPEND (nodes p3 r)) p3) (\<lambda>p4. Done (True, p4)))
              else
                bindR (got RDRIN p2) (\<lambda>(b, p3).
                  if b then
                    bindR (word cl k p3) (\<lambda>p4.
                    bindR (popAdd (Redirect RDRIN (nodes p4 r)) p4) (\<lambda>p5. Done (True, p5)))
                  else bindR (pop p3) (\<lambda>p4. Done (False, p4))))))"

text \<open>The loop of \<^verbatim>\<open>commandsPropagating\<close>.\<close>

primrec commands_loop ::
  "(Token list \<Rightarrow> parser \<Rightarrow> parser res) \<Rightarrow> Token list \<Rightarrow> Token list \<Rightarrow> nat \<Rightarrow> nat \<Rightarrow> parser
     \<Rightarrow> (nat \<times> parser) res" where
  "commands_loop cmd cmdStop stop count 0 = (\<lambda>p. Timeout)"
| "commands_loop cmd cmdStop stop count (Suc k) = (\<lambda>p.
     if tok p = EOF then Done (count, p)
     else if list_ex (\<lambda>t. peek t p) stop then Done (count, p)
     else bindR (cmd cmdStop p) (commands_loop cmd cmdStop stop (count + 1) k))"

definition commandsPropagating ::
  "(Token list \<Rightarrow> parser \<Rightarrow> parser res) \<Rightarrow> nat \<Rightarrow> bool \<Rightarrow> Token list \<Rightarrow> parser
     \<Rightarrow> (nat \<times> parser) res" where
  "commandsPropagating cmd k propagate stop p =
     commands_loop cmd (if propagate then stop else []) stop 0 k p"

definition commands ::
  "(Token list \<Rightarrow> parser \<Rightarrow> parser res) \<Rightarrow> nat \<Rightarrow> Token list \<Rightarrow> parser \<Rightarrow> (nat \<times> parser) res" where
  "commands cmd k stop p = commandsPropagating cmd k False stop p"

definition commandsLimited ::
  "(Token list \<Rightarrow> parser \<Rightarrow> parser res) \<Rightarrow> nat \<Rightarrow> Token list \<Rightarrow> parser \<Rightarrow> (nat \<times> parser) res" where
  "commandsLimited cmd k stop p = commandsPropagating cmd k True stop p"

definition binaryExpr ::
  "(Token list \<Rightarrow> parser \<Rightarrow> parser res) \<Rightarrow> Token \<Rightarrow> Node \<Rightarrow> parser \<Rightarrow> parser res" where
  "binaryExpr cmd op left p =
     (case newNode p of (y, p1) \<Rightarrow>
        bindR (cmd [] (push (NodePtr y) p1)) (\<lambda>p2.
        bindR (pop p2) (\<lambda>p3. popAdd (BinaryExpr op left (nodes p3 y)) p3)))"

text \<open>The arms of the \<^verbatim>\<open>switch\<close> of \<^verbatim>\<open>command\<close>, each after its \<^verbatim>\<open>p.got\<close> has succeeded.\<close>

definition subshell_case ::
  "(Token list \<Rightarrow> parser \<Rightarrow> parser res) \<Rightarrow> nat \<Rightarrow> parser \<Rightarrow> parser res" where
  "subshell_case cmd k p =
     (case newSeq p of (sub, p1) \<Rightarrow>
        bindR (commandsLimited cmd k [RPAREN] (push (SeqPtr sub) p1)) (\<lambda>(n, p2).
        bindR (want RPAREN (if n = 0 then errWantedStr (Str ''command'') p2 else p2)) (\<lambda>p3.
        popAdd (Subshell (seqs p3 sub)) p3)))"

definition block_case ::
  "(Token list \<Rightarrow> parser \<Rightarrow> parser res) \<Rightarrow> nat \<Rightarrow> parser \<Rightarrow> parser res" where
  "block_case cmd k p =
     (case newSeq p of (bl, p1) \<Rightarrow>
        bindR (commands cmd k [RBRACE] (push (SeqPtr bl) p1)) (\<lambda>(n, p2).
        bindR (want RBRACE (if n = 0 then errWantedStr (Str ''command'') p2 else p2)) (\<lambda>p3.
        popAdd (Block (seqs p3 bl)) p3)))"

text \<open>The loop \<^verbatim>\<open>for p.got(ELIF)\<close> of the \<^verbatim>\<open>if\<close> arm.\<close>

primrec elif_loop ::
  "(Token list \<Rightarrow> parser \<Rightarrow> parser res) \<Rightarrow> nat \<Rightarrow> nat \<Rightarrow> parser \<Rightarrow> parser res" where
  "elif_loop cmd k0 0 = (\<lambda>p. Timeout)"
| "elif_loop cmd k0 (Suc k) = (\<lambda>p.
     bindR (got ELIF p) (\<lambda>(b, p1).
       if b then
         (case newNode p1 of (c, p2) \<Rightarrow>
          case newSeq p2 of (t, p3) \<Rightarrow>
            bindR (cmd [] (push (NodePtr c) p3)) (\<lambda>p4.
            bindR (pop p4) (\<lambda>p5.
            bindR (want THEN p5) (\<lambda>p6.
            bindR (commands cmd k0 [FI, ELIF, ELSE] (push (SeqPtr t) p6)) (\<lambda>(n, p7).
            bindR (popAdd (Elif (nodes p7 c) (seqs p7 t)) p7) (elif_loop cmd k0 k))))))
       else Done p1))"

definition if_case ::
  "(Token list \<Rightarrow> parser \<Rightarrow> parser res) \<Rightarrow> nat \<Rightarrow> parser \<Rightarrow> parser res" where
  "if_case cmd k p =
     (case newNode p of (c, q1) \<Rightarrow>
      case newSeq q1 of (t, q2) \<Rightarrow>
      case newSeq q2 of (ei, q3) \<Rightarrow>
      case newSeq q3 of (el, q4) \<Rightarrow>
        bindR (cmd [] (push (NodePtr c) q4)) (\<lambda>p1.
        bindR (pop p1) (\<lambda>p2.
        bindR (want THEN p2) (\<lambda>p3.
        bindR (commands cmd k [FI, ELIF, ELSE] (push (SeqPtr t) p3)) (\<lambda>(n, p4).
        bindR (pop p4) (\<lambda>p5.
        bindR (elif_loop cmd k k (push (SeqPtr ei) p5)) (\<lambda>p6.
        bindR (got ELSE p6) (\<lambda>(b, p7).
        bindR (if b then
                 bindR (pop p7) (\<lambda>p8.
                 bindR (commands cmd k [FI] (push (SeqPtr el) p8)) (\<lambda>(n, p9). Done p9))
               else Done p7) (\<lambda>p10.
        bindR (want FI p10) (\<lambda>p11.
        popAdd (IfStmt (nodes p11 c) (seqs p11 t) (seqs p11 ei) (seqs p11 el)) p11))))))))))"

definition while_case ::
  "(Token list \<Rightarrow> parser \<Rightarrow> parser res) \<Rightarrow> nat \<Rightarrow> parser \<Rightarrow> parser res" where
  "while_case cmd k p =
     (case newNode p of (c, q1) \<Rightarrow>
      case newSeq q1 of (d, q2) \<Rightarrow>
        bindR (cmd [] (push (NodePtr c) q2)) (\<lambda>p1.
        bindR (pop p1) (\<lambda>p2.
        bindR (want DO p2) (\<lambda>p3.
        bindR (commands cmd k [DONE] (push (SeqPtr d) p3)) (\<lambda>(n, p4).
        bindR (want DONE p4) (\<lambda>p5.
        popAdd (WhileStmt (nodes p5 c) (seqs p5 d)) p5))))))"

definition for_case ::
  "(Token list \<Rightarrow> parser \<Rightarrow> parser res) \<Rightarrow> nat \<Rightarrow> parser \<Rightarrow> parser res" where
  "for_case cmd k p =
     (case newSeq p of (wl, q1) \<Rightarrow>
      case newSeq q1 of (d, q2) \<Rightarrow>
        bindR (want LIT q2) (\<lambda>p1.
        let nm = Lit (lval p1) in
        bindR (want IN p1) (\<lambda>p2.
        bindR (wordList (commandsLimited cmd k [RPAREN]) k (push (SeqPtr wl) p2)) (\<lambda>(n, p3).
        bindR (pop p3) (\<lambda>p4.
        bindR (want DO p4) (\<lambda>p5.
        bindR (commands cmd k [DONE] (push (SeqPtr d) p5)) (\<lambda>(n, p6).
        bindR (want DONE p6) (\<lambda>p7.
        popAdd (ForStmt nm (seqs p7 wl) (seqs p7 d)) p7))))))))"

text \<open>
  The loop \<^verbatim>\<open>args\<close> of the simple-command arm; \<open>a\<close> is the cell of \<^verbatim>\<open>cmd.Args\<close>. It
  gives whether the arm has returned from inside the loop (after \<^verbatim>\<open>binaryExpr\<close>), and
  \<^verbatim>\<open>cmd.Background\<close>.
\<close>

primrec args_loop ::
  "(Token list \<Rightarrow> parser \<Rightarrow> parser res) \<Rightarrow> nat \<Rightarrow> nat \<Rightarrow> Token list \<Rightarrow> nat \<Rightarrow> parser
     \<Rightarrow> (bool \<times> bool \<times> parser) res" where
  "args_loop cmd k0 a stop 0 = (\<lambda>p. Timeout)"
| "args_loop cmd k0 a stop (Suc k) = (\<lambda>p.
     if tok p = EOF then Done (False, False, p)
     else if list_ex (\<lambda>t. peek t p) stop then Done (False, False, p)
     else if peek LIT p \<or> peek EXP p then
       bindR (word (commandsLimited cmd k0 [RPAREN]) k0 p) (args_loop cmd k0 a stop k)
     else
       bindR (got LAND p) (\<lambda>(b, p1).
       if b then
         bindR (binaryExpr cmd LAND (Command (seqs p1 a) False) p1) (\<lambda>p2. Done (True, False, p2))
       else
       bindR (got OR p1) (\<lambda>(b, p2).
       if b then
         bindR (binaryExpr cmd OR (Command (seqs p2 a) False) p2) (\<lambda>p3. Done (True, False, p3))
       else
       bindR (got LOR p2) (\<lambda>(b, p3).
       if b then
         bindR (binaryExpr cmd LOR (Command (seqs p3 a) False) p3) (\<lambda>p4. Done (True, False, p4))
       else
       bindR (gotRedirect (commandsLimited cmd k0 [RPAREN]) k0 p3) (\<lambda>(b, p4).
       if b then args_loop cmd k0 a stop k p4
       else
       bindR (got AND p4) (\<lambda>(b, p5).
       if b then Done (False, True, p5)
       else
       bindR (got SEMICOLON p5) (\<lambda>(b, p6).
       if b then Done (False, False, p6)
       else
       bindR (got (RuneTok (CHR ''\<newline>'')) p6) (\<lambda>(b, p7).
       if b then Done (False, False, p7)
       else args_loop cmd k0 a stop k (errAfterStr ''command'' p7)))))))))"

definition simple_case ::
  "(Token list \<Rightarrow> parser \<Rightarrow> parser res) \<Rightarrow> nat \<Rightarrow> Token list \<Rightarrow> parser \<Rightarrow> parser res" where
  "simple_case cmd k stop p =
     (case newSeq p of (a, p1) \<Rightarrow>
        bindR (word (commandsLimited cmd k [RPAREN]) k (push (SeqPtr a) p1)) (\<lambda>p2.
        let fpos = lpos p2; fval = lval p2 in
        bindR (got LPAREN p2) (\<lambda>(b, p3).
        if b then
          bindR (want RPAREN p3) (\<lambda>p4.
          let p5 = (if \<not> identRe fval
                    then posErr fpos ''invalid func name %q'' [Quoted fval] p4 else p4)
          in case newNode p5 of (body, p6) \<Rightarrow>
               bindR (cmd [] (push (NodePtr body) p6)) (\<lambda>p7.
               bindR (pop p7) (\<lambda>p8.
               popAdd (FuncDecl (Lit fval) (nodes p8 body)) p8)))
        else
          bindR (args_loop cmd k a stop k p3) (\<lambda>(returned, bg, p4).
          if returned then Done p4 else popAdd (Command (seqs p4 a) bg) p4))))"

text \<open>The body of \<^verbatim>\<open>command\<close>, its calls of itself going through \<open>cmd\<close>.\<close>

definition command_body ::
  "(Token list \<Rightarrow> parser \<Rightarrow> parser res) \<Rightarrow> nat \<Rightarrow> Token list \<Rightarrow> parser \<Rightarrow> parser res" where
  "command_body cmd k stop p =
     bindR (got COMMENT p) (\<lambda>(b, p1).
     if b then add (Comment (lval p1)) p1
     else
     bindR (got (RuneTok (CHR ''\<newline>'')) p1) (\<lambda>(b, p2).
     if b then (if tok p2 \<noteq> EOF then cmd [] p2 else Done p2)
     else
     bindR (got COMMENT p2) (\<lambda>(b, p3).
     if b then (if tok p3 \<noteq> EOF then cmd [] p3 else Done p3)
     else
     bindR (got LPAREN p3) (\<lambda>(b, p4).
     if b then subshell_case cmd k p4
     else
     bindR (got LBRACE p4) (\<lambda>(b, p5).
     if b then block_case cmd k p5
     else
     bindR (got IF p5) (\<lambda>(b, p6).
     if b then if_case cmd k p6
     else
     bindR (got WHILE p6) (\<lambda>(b, p7).
     if b then while_case cmd k p7
     else
     bindR (got FOR p7) (\<lambda>(b, p8).
     if b then for_case cmd k p8
     else if peek LIT p8 \<or> peek EXP p8 then simple_case cmd k stop p8
     else Done (errWantedStr (Str ''command'') p8)))))))))"

primrec command :: "nat \<Rightarrow> Token list \<Rightarrow> parser \<Rightarrow> parser res" where
  "command 0 = (\<lambda>stop p. Timeout)"
| "command (Suc k) = command_body (command k) k"

definition program :: "nat \<Rightarrow> parser \<Rightarrow> parser res" where
  "program k p = bindR (commands (command k) k [] p) (\<lambda>(n, p1). Done p1)"

text \<open>
  The parser \<^verbatim>\<open>Parse\<close> starts from: the zero value of every field but the reader, the name
  and \<^verbatim>\<open>npos\<close>. The zero token is \<^verbatim>\<open>Token(0)\<close>.
\<close>

definition init :: "readEv list \<Rightarrow> string \<Rightarrow> parser" where
  "init input nm =
     \<lparr>rd = \<lparr>src = input, lastRune = None\<rparr>, name = nm, err = None, spaced = False,
      ltok = RuneTok (CHR 0x00), tok = RuneTok (CHR 0x00), lval = [], val = [],
      bpos = \<lparr>line = 0, col = 0\<rparr>, lpos = \<lparr>line = 0, col = 0\<rparr>, pos = \<lparr>line = 0, col = 0\<rparr>,
      npos = \<lparr>line = 1, col = 1\<rparr>,
      seqs = (\<lambda>a. []), nodes = (\<lambda>a. None), fresh = 1, stack = []\<rparr>"

definition Parse :: "nat \<Rightarrow> readEv list \<Rightarrow> string \<Rightarrow> (Prog \<times> error option) res" where
  "Parse k input nm =
     bindR (next' (push (SeqPtr 0) (init input nm))) (\<lambda>p1.
     bindR (program k p1) (\<lambda>p2. Done (\<lparr>Stmts = seqs p2 0\<rparr>, err p2)))"

section \<open>A latched error stays\<close>


lemmas prim_defs = advance_def setEOF_def errPass_def moveWith_def push_def newSeq_def
  newNode_def posErr_def curErr_def errWantedStr_def errWanted_def errAfterStr_def Let_def

lemma err_readRune: "readRune p = (x, p1) \<Longrightarrow> err p = Some e \<Longrightarrow> err p1 = Some e"
  by (auto simp: readRune_def prim_defs split: prod.splits sum.splits if_splits)


lemma err_readOnly: "readOnly w p = (b, p1) \<Longrightarrow> err p = Some e \<Longrightarrow> err p1 = Some e"
  by (auto simp: readOnly_def prim_defs split: prod.splits sum.splits if_splits)

lemma err_doToken: "doToken c p = (t, p1) \<Longrightarrow> err p = Some e \<Longrightarrow> err p1 = Some e"
  by (auto simp: doToken_def split: prod.splits if_splits dest: err_readOnly)




lemma err_readUntil_loop:
  "readUntil_loop t rs p = ((s, found), p1) \<Longrightarrow> err p = Some e \<Longrightarrow> err p1 = Some e"
proof (induction t rs p arbitrary: s found p1 rule: readUntil_loop.induct)
  case (1 t rs p)
  obtain x p2 where rr: "readRune p = (x, p2)"
    by (cases "readRune p")
  have e2: "err p2 = Some e"
    using err_readRune [OF rr "1.prems"(2)] .
  show ?case
  proof (cases x)
    case (Inl a)
    with "1.prems"(1) rr e2 show ?thesis
      by (subst (asm) readUntil_loop.simps) simp
  next
    case (Inr c)
    obtain t1 p3 where dt: "doToken c p2 = (t1, p3)"
      by (cases "doToken c p2")
    have e3: "err p3 = Some e"
      using err_doToken [OF dt e2] .
    show ?thesis
    proof (cases "t = t1")
      case True
      with "1.prems"(1) rr Inr dt e3 show ?thesis
        by (subst (asm) readUntil_loop.simps) simp
    next
      case False
      with "1.prems"(1) rr Inr dt have "readUntil_loop t (rs @ [c]) p3 = ((s, found), p1)"
        by (subst (asm) readUntil_loop.simps) simp
      then show ?thesis
        using "1.IH" [OF rr [symmetric] Inr dt [symmetric] False _ e3] by simp
    qed
  qed
qed

lemma err_readUntilWant:
  "readUntilWant t p = (s, p1) \<Longrightarrow> err p = Some e \<Longrightarrow> err p1 = Some e"
  by (auto simp: readUntilWant_def readUntil_def prim_defs split: prod.splits if_splits
           dest: err_readUntil_loop)












definition post :: "'a res \<Rightarrow> ('a \<Rightarrow> bool) \<Rightarrow> bool" where
  "post m Q = (case m of Done x \<Rightarrow> Q x | Panic s \<Rightarrow> True | Timeout \<Rightarrow> True)"

lemma post_Done [simp]: "post (Done x) Q = Q x"
  by (simp add: post_def)

lemma post_Panic [simp]: "post (Panic s) Q"
  by (simp add: post_def)

lemma post_Timeout [simp]: "post Timeout Q"
  by (simp add: post_def)




lemma post_mono: "post m Q \<Longrightarrow> (\<And>x. Q x \<Longrightarrow> R x) \<Longrightarrow> post m R"
  by (auto simp: post_def split: res.splits)

lemma postD: "post m Q \<Longrightarrow> m = Done x \<Longrightarrow> Q x"
  by (simp add: post_def)







lemma err_snd_readUntilWant [simp]:
  "err p = Some e \<Longrightarrow> err (snd (readUntilWant t p)) = Some e"
  using err_readUntilWant [of t p "fst (readUntilWant t p)" "snd (readUntilWant t p)" e] by simp
























section \<open>The recursion bound does not change a result\<close>

text \<open>
  \<open>leR a b\<close>: the call \<open>a\<close> ran out of its bound, or it is \<open>b\<close>. Every rule with a larger bound
  is above the rule with a smaller one, so a parse that returns (or panics) with some bound
  gives the same with every larger bound.
\<close>

definition leR :: "'a res \<Rightarrow> 'a res \<Rightarrow> bool" where
  "leR a b \<longleftrightarrow> a = Timeout \<or> a = b"

lemma leR_refl: "leR a a"
  by (simp add: leR_def)

lemma leR_bindR:
  "leR m m1 \<Longrightarrow> (\<And>x. leR (f x) (f1 x)) \<Longrightarrow> leR (bindR m f) (bindR m1 f1)"
  by (auto simp: leR_def bindR_def split: res.splits)

lemma leR_if:
  "(c \<Longrightarrow> leR a a1) \<Longrightarrow> (\<not> c \<Longrightarrow> leR b b1) \<Longrightarrow> leR (if c then a else b) (if c then a1 else b1)"
  by simp

lemma leR_case_prod:
  "(\<And>a b. leR (f a b) (f1 a b)) \<Longrightarrow> leR (case_prod f x) (case_prod f1 x)"
  by (cases x) simp

lemma leR_Let: "(\<And>x. leR (f x) (f1 x)) \<Longrightarrow> leR (Let v f) (Let v f1)"
  by simp

lemmas leR_rules = leR_bindR leR_if leR_case_prod leR_Let

lemma word_exp_mono:
  assumes cl: "\<And>p. leR (cl p) (cl1 p)"
  shows "leR (word_exp cl p) (word_exp cl1 p)"
  unfolding word_exp_def
  by (intro leR_refl leR_rules cl | assumption)+

lemma word_loop_mono:
  assumes cl: "\<And>p. leR (cl p) (cl1 p)"
    and k: "k \<le> k1"
  shows "leR (word_loop cl w k p) (word_loop cl1 w k1 p)"
  using k
proof (induction k arbitrary: k1 p)
  case 0
  show ?case by (simp add: leR_def)
next
  case (Suc k)
  then obtain k2 where k1: "k1 = Suc k2" and k2: "k \<le> k2"
    by (cases k1) simp_all
  note ih = Suc.IH [OF k2]
  show ?case
    unfolding k1 word_loop.simps
    by (intro leR_refl leR_rules ih word_exp_mono [OF cl] | assumption)+
qed

lemma word_mono:
  assumes cl: "\<And>p. leR (cl p) (cl1 p)"
    and k: "k \<le> k1"
  shows "leR (word cl k p) (word cl1 k1 p)"
  unfolding word_def
  by (intro leR_refl leR_rules word_loop_mono [OF cl] k | assumption)+

lemma wordList_loop_mono:
  assumes cl: "\<And>p. leR (cl p) (cl1 p)"
    and k0: "k0 \<le> k01"
    and k: "k \<le> k1"
  shows "leR (wordList_loop cl k0 n k p) (wordList_loop cl1 k01 n k1 p)"
  using k
proof (induction k arbitrary: k1 p n)
  case 0
  show ?case by (simp add: leR_def)
next
  case (Suc k)
  then obtain k2 where k1: "k1 = Suc k2" and k2: "k \<le> k2"
    by (cases k1) simp_all
  note ih = Suc.IH [OF k2]
  show ?case
    unfolding k1 wordList_loop.simps
    by (intro leR_refl leR_rules ih word_mono [OF cl k0] | assumption)+
qed

lemma wordList_mono:
  assumes cl: "\<And>p. leR (cl p) (cl1 p)"
    and k: "k \<le> k1"
  shows "leR (wordList cl k p) (wordList cl1 k1 p)"
  unfolding wordList_def
  by (intro leR_refl leR_rules wordList_loop_mono [OF cl] k | assumption)+

lemma gotRedirect_mono:
  assumes cl: "\<And>p. leR (cl p) (cl1 p)"
    and k: "k \<le> k1"
  shows "leR (gotRedirect cl k p) (gotRedirect cl1 k1 p)"
  unfolding gotRedirect_def
  by (intro leR_refl leR_rules word_mono [OF cl] k | assumption)+

lemma commands_loop_mono:
  assumes cmd: "\<And>stop p. leR (cmd stop p) (cmd1 stop p)"
    and k: "k \<le> k1"
  shows "leR (commands_loop cmd cmdStop stop n k p) (commands_loop cmd1 cmdStop stop n k1 p)"
  using k
proof (induction k arbitrary: k1 p n)
  case 0
  show ?case by (simp add: leR_def)
next
  case (Suc k)
  then obtain k2 where k1: "k1 = Suc k2" and k2: "k \<le> k2"
    by (cases k1) simp_all
  note ih = Suc.IH [OF k2]
  show ?case
    unfolding k1 commands_loop.simps
    by (intro leR_refl leR_rules ih cmd | assumption)+
qed

lemma commandsPropagating_mono:
  assumes cmd: "\<And>stop p. leR (cmd stop p) (cmd1 stop p)"
    and k: "k \<le> k1"
  shows "leR (commandsPropagating cmd k b stop p) (commandsPropagating cmd1 k1 b stop p)"
  unfolding commandsPropagating_def
  by (intro leR_refl leR_rules commands_loop_mono [OF cmd] k | assumption)+

lemma commands_mono:
  assumes cmd: "\<And>stop p. leR (cmd stop p) (cmd1 stop p)"
    and k: "k \<le> k1"
  shows "leR (commands cmd k stop p) (commands cmd1 k1 stop p)"
  unfolding commands_def
  by (intro leR_refl leR_rules commandsPropagating_mono [OF cmd] k | assumption)+

lemma commandsLimited_mono:
  assumes cmd: "\<And>stop p. leR (cmd stop p) (cmd1 stop p)"
    and k: "k \<le> k1"
  shows "leR (commandsLimited cmd k stop p) (commandsLimited cmd1 k1 stop p)"
  unfolding commandsLimited_def
  by (intro leR_refl leR_rules commandsPropagating_mono [OF cmd] k | assumption)+

lemma binaryExpr_mono:
  assumes cmd: "\<And>stop p. leR (cmd stop p) (cmd1 stop p)"
  shows "leR (binaryExpr cmd op left p) (binaryExpr cmd1 op left p)"
  unfolding binaryExpr_def
  by (intro leR_refl leR_rules cmd | assumption)+

lemma subshell_case_mono:
  assumes cmd: "\<And>stop p. leR (cmd stop p) (cmd1 stop p)"
    and k: "k \<le> k1"
  shows "leR (subshell_case cmd k p) (subshell_case cmd1 k1 p)"
  unfolding subshell_case_def
  by (intro leR_refl leR_rules commandsLimited_mono [OF cmd] k | assumption)+

lemma block_case_mono:
  assumes cmd: "\<And>stop p. leR (cmd stop p) (cmd1 stop p)"
    and k: "k \<le> k1"
  shows "leR (block_case cmd k p) (block_case cmd1 k1 p)"
  unfolding block_case_def
  by (intro leR_refl leR_rules commands_mono [OF cmd] k | assumption)+

lemma elif_loop_mono:
  assumes cmd: "\<And>stop p. leR (cmd stop p) (cmd1 stop p)"
    and k0: "k0 \<le> k01"
    and k: "k \<le> k1"
  shows "leR (elif_loop cmd k0 k p) (elif_loop cmd1 k01 k1 p)"
  using k
proof (induction k arbitrary: k1 p)
  case 0
  show ?case by (simp add: leR_def)
next
  case (Suc k)
  then obtain k2 where k1: "k1 = Suc k2" and k2: "k \<le> k2"
    by (cases k1) simp_all
  note ih = Suc.IH [OF k2]
  show ?case
    unfolding k1 elif_loop.simps
    by (intro leR_refl leR_rules ih cmd commands_mono [OF cmd k0] | assumption)+
qed

lemma if_case_mono:
  assumes cmd: "\<And>stop p. leR (cmd stop p) (cmd1 stop p)"
    and k: "k \<le> k1"
  shows "leR (if_case cmd k p) (if_case cmd1 k1 p)"
  unfolding if_case_def
  by (intro leR_refl leR_rules cmd commands_mono [OF cmd] elif_loop_mono [OF cmd] k | assumption)+

lemma while_case_mono:
  assumes cmd: "\<And>stop p. leR (cmd stop p) (cmd1 stop p)"
    and k: "k \<le> k1"
  shows "leR (while_case cmd k p) (while_case cmd1 k1 p)"
  unfolding while_case_def
  by (intro leR_refl leR_rules cmd commands_mono [OF cmd] k | assumption)+

lemma for_case_mono:
  assumes cmd: "\<And>stop p. leR (cmd stop p) (cmd1 stop p)"
    and k: "k \<le> k1"
  shows "leR (for_case cmd k p) (for_case cmd1 k1 p)"
  unfolding for_case_def
  by (intro leR_refl leR_rules cmd commands_mono [OF cmd] wordList_mono commandsLimited_mono [OF cmd] k | assumption)+

lemma args_loop_mono:
  assumes cmd: "\<And>stop p. leR (cmd stop p) (cmd1 stop p)"
    and k0: "k0 \<le> k01"
    and k: "k \<le> k1"
  shows "leR (args_loop cmd k0 a stop k p) (args_loop cmd1 k01 a stop k1 p)"
  using k
proof (induction k arbitrary: k1 p)
  case 0
  show ?case by (simp add: leR_def)
next
  case (Suc k)
  then obtain k2 where k1: "k1 = Suc k2" and k2: "k \<le> k2"
    by (cases k1) simp_all
  note ih = Suc.IH [OF k2]
  show ?case
    unfolding k1 args_loop.simps
    by (intro leR_refl leR_rules ih cmd word_mono gotRedirect_mono commandsLimited_mono [OF cmd] binaryExpr_mono [OF cmd] k0 | assumption)+
qed

lemma simple_case_mono:
  assumes cmd: "\<And>stop p. leR (cmd stop p) (cmd1 stop p)"
    and k: "k \<le> k1"
  shows "leR (simple_case cmd k stop p) (simple_case cmd1 k1 stop p)"
  unfolding simple_case_def
  by (intro leR_refl leR_rules cmd word_mono commandsLimited_mono [OF cmd] args_loop_mono [OF cmd] k | assumption)+

lemma command_body_mono:
  assumes cmd: "\<And>stop p. leR (cmd stop p) (cmd1 stop p)"
    and k: "k \<le> k1"
  shows "leR (command_body cmd k stop p) (command_body cmd1 k1 stop p)"
  unfolding command_body_def
  by (intro leR_refl leR_rules cmd subshell_case_mono [OF cmd] block_case_mono [OF cmd] if_case_mono [OF cmd] while_case_mono [OF cmd] for_case_mono [OF cmd] simple_case_mono [OF cmd] k | assumption)+

lemma command_mono: "k \<le> k1 \<Longrightarrow> leR (command k stop p) (command k1 stop p)"
proof (induction k arbitrary: k1 stop p)
  case 0
  show ?case by (simp add: leR_def)
next
  case (Suc k)
  then obtain k2 where k1: "k1 = Suc k2" and k2: "k \<le> k2"
    by (cases k1) simp_all
  show ?case
    unfolding k1 command.simps
    by (rule command_body_mono [OF Suc.IH [OF k2] k2])
qed

lemma program_mono: "k \<le> k1 \<Longrightarrow> leR (program k p) (program k1 p)"
  unfolding program_def
  by (intro leR_refl leR_rules commands_mono command_mono | assumption)+

lemma Parse_mono: "k \<le> k1 \<Longrightarrow> leR (Parse k input nm) (Parse k1 input nm)"
  unfolding Parse_def
  by (intro leR_refl leR_rules program_mono | assumption)+

lemma Parse_more_fuel:
  "Parse k input nm = Done x \<Longrightarrow> k \<le> k1 \<Longrightarrow> Parse k1 input nm = Done x"
  using Parse_mono [of k k1 input nm] by (simp add: leR_def)

section \<open>Scanning a quoted token\<close>

text \<open>The cursor after the runes of a text: what \<^verbatim>\<open>moveWith\<close> does to \<^verbatim>\<open>npos\<close>, rune by rune.\<close>

fun advPos :: "string \<Rightarrow> position \<Rightarrow> position" where
  "advPos [] ps = ps"
| "advPos (c # cs) ps =
     advPos cs (if c = CHR ''\<newline>'' then \<lparr>line = line ps + 1, col = 1\<rparr>
                else ps\<lparr>col := col ps + 1\<rparr>)"

text \<open>
  A rune that leaves the quoted region opened by \<open>q\<close> open and is kept as it is: not the
  delimiter itself and, unless the region is single-quoted, neither a backslash nor a dollar
  sign.
\<close>

definition inert :: "rune \<Rightarrow> rune \<Rightarrow> bool" where
  "inert q c \<longleftrightarrow> c \<noteq> q \<and> (q = CHR 0x27 \<or> (c \<noteq> CHR 0x5C \<and> c \<noteq> CHR ''$''))"

text \<open>What the scan of the last token of the input leaves as it was, with the input used up.\<close>

definition frame :: "parser \<Rightarrow> parser \<Rightarrow> bool" where
  "frame p p1 \<longleftrightarrow> stack p1 = stack p \<and> seqs p1 = seqs p \<and> nodes p1 = nodes p
     \<and> fresh p1 = fresh p \<and> name p1 = name p \<and> src (rd p1) = []"


lemma readRune_Nil:
  "src (rd p) = [] \<Longrightarrow> readRune p = (Inl IoEOF, setEOF (p\<lparr>rd := (rd p)\<lparr>lastRune := None\<rparr>\<rparr>))"
  by (simp add: readRune_def ReadRune_def)

lemma readRune_Cons:
  "src (rd p) = Rune d # rest \<Longrightarrow>
   readRune p = (Inr d, moveWith d (p\<lparr>rd := (rd p)\<lparr>src := rest, lastRune := Some d\<rparr>\<rparr>))"
  by (simp add: readRune_def ReadRune_def)

lemma quote_not_zero: "quote q \<Longrightarrow> q \<noteq> CHR 0x00"
  by (auto simp: quote_def)

lemma readLit_switch_inert:
  assumes "quote q" "inert q c"
  shows "readLit_switch rs q c p = Done (False, rs @ [c], q, p)"
proof -
  from assms have a: "\<not> (q \<noteq> CHR 0x27 \<and> c = CHR 0x5C)" "\<not> (q \<noteq> CHR 0x27 \<and> c = CHR ''$'')"
    "q \<noteq> CHR 0x00" "c \<noteq> q"
    by (auto simp: inert_def quote_def)
  show ?thesis
    unfolding readLit_switch_def by (simp only: a if_False if_True not_False_eq_True)
qed


lemma readLit_loop_open_eof:
  "quote q \<Longrightarrow> list_all (inert q) (c # s) \<Longrightarrow> src (rd p) = map Rune s \<Longrightarrow> err p = None \<Longrightarrow>
   \<exists>p1. readLit_loop rs q c p = Done (rs @ c # s, p1)
        \<and> err p1 = Some (LineErr \<lparr>fname = name p, pos = advPos s (npos p),
                          text' = Sprintf ''unexpected token %s - wanted %s''
                                    [TokName EOF, TokName (RuneTok q)]\<rparr>)
        \<and> tok p1 = EOF \<and> frame p p1"
proof (induction s arbitrary: rs c p)
  case Nil
  then have sw: "readLit_switch rs q c p = Done (False, rs @ [c], q, p)"
    by (simp add: readLit_switch_inert)
  from Nil have rr: "readRune p = (Inl IoEOF, setEOF (p\<lparr>rd := (rd p)\<lparr>lastRune := None\<rparr>\<rparr>))"
    by (simp add: readRune_Nil)
  from Nil have q0: "q \<noteq> CHR 0x00"
    by (simp add: quote_not_zero)
  show ?case
    apply (subst readLit_loop.simps)
    apply (simp add: sw rr q0 bindR_def)
    using Nil.prems(3,4)
    apply (simp add: prim_defs frame_def)
    done
next
  case (Cons d s)
  let ?p = "moveWith d (p\<lparr>rd := (rd p)\<lparr>src := map Rune s, lastRune := Some d\<rparr>\<rparr>)"
  from Cons.prems have sw: "readLit_switch rs q c p = Done (False, rs @ [c], q, p)"
    by (simp add: readLit_switch_inert)
  from Cons.prems have rr: "readRune p = (Inr d, ?p)"
    by (simp add: readRune_Cons)
  have step: "readLit_loop rs q c p = readLit_loop (rs @ [c]) q d ?p"
    by (subst readLit_loop.simps) (simp add: sw rr bindR_def)
  have "\<exists>p1. readLit_loop (rs @ [c]) q d ?p = Done ((rs @ [c]) @ d # s, p1)
        \<and> err p1 = Some (LineErr \<lparr>fname = name ?p, pos = advPos s (npos ?p),
                          text' = Sprintf ''unexpected token %s - wanted %s''
                                    [TokName EOF, TokName (RuneTok q)]\<rparr>)
        \<and> tok p1 = EOF \<and> frame ?p p1"
    using Cons.prems by (intro Cons.IH) (simp_all add: prim_defs)
  then obtain p1 where
    "readLit_loop (rs @ [c]) q d ?p = Done ((rs @ [c]) @ d # s, p1)"
    "err p1 = Some (LineErr \<lparr>fname = name ?p, pos = advPos s (npos ?p),
                          text' = Sprintf ''unexpected token %s - wanted %s''
                                    [TokName EOF, TokName (RuneTok q)]\<rparr>)"
    "tok p1 = EOF" "frame ?p p1"
    by blast
  then show ?case
    using step by (intro exI [of _ p1]) (simp add: prim_defs frame_def)
qed



lemma readLit_switch_open:
  assumes "quote q"
  shows "readLit_switch rs (CHR 0x00) q p = Done (False, rs @ [q], q, p)"
proof -
  from assms have a: "q \<noteq> CHR 0x5C" "q \<noteq> CHR ''$''"
    by (auto simp: quote_def)
  show ?thesis
    unfolding readLit_switch_def by (simp add: a assms)
qed


lemma next'_eof:
  "src (rd p) = [] \<Longrightarrow>
   next' p = Done (setEOF (p\<lparr>lpos := pos p, spaced := False, rd := (rd p)\<lparr>lastRune := None\<rparr>\<rparr>))"
  by (subst next'.simps, subst skipSpace.simps) (simp add: readRune_Nil)


lemma program_single_literal:
  assumes "tok p = LIT" "val p = v" "v \<noteq> []" "v \<noteq> ''if''" "v \<noteq> ''while''" "v \<noteq> ''for''"
    and "src (rd p) = []" "stack p = [SeqPtr 0]" "seqs p 0 = []" "fresh p \<noteq> 0"
  shows "\<exists>p1. program (Suc (Suc (Suc k))) p = Done p1
           \<and> seqs p1 0 = [Command [Word [Lit v]] False] \<and> err p1 = err p"
  using assms
  apply (simp add: program_def commands_def commandsPropagating_def command_body_def got_def
      peek_def reservedLits_def simple_case_def word_def next'_eof prim_defs add_def pop_def
      popAdd_def bindR_def commandsLimited_def)
  done


lemma quote_plain:
  "quote q \<Longrightarrow> \<not> space q \<and> \<not> reserved q \<and> \<not> starters q \<and> q \<noteq> CHR 0x5C \<and> q \<noteq> CHR ''\<newline>''"
  by (auto simp: quote_def space_def reserved_def starters_def)

lemma next'_quote:
  assumes q: "quote q" and src: "src (rd p) = Rune q # rest"
  shows "\<exists>p2. next' p = bindR (readLit q p2) (\<lambda>(s, p1). Done (advance LIT s p1))
           \<and> src (rd p2) = rest \<and> err p2 = err p \<and> npos p2 = advPos [q] (npos p)
           \<and> stack p2 = stack p \<and> seqs p2 = seqs p \<and> nodes p2 = nodes p
           \<and> fresh p2 = fresh p \<and> name p2 = name p"
proof -
  have rr: "readRune (p\<lparr>lpos := pos p, spaced := False\<rparr>) =
      (Inr q, moveWith q (p\<lparr>lpos := pos p, spaced := False,
                             rd := (rd p)\<lparr>src := rest, lastRune := Some q\<rparr>\<rparr>))"
    using src by (simp add: readRune_Cons)
  show ?thesis
    using quote_plain [OF q]
    apply (subst next'.simps)
    apply (subst skipSpace.simps)
    apply (simp add: rr next_token_def)
    apply (intro exI conjI)
            apply (rule refl)
           apply (simp_all add: prim_defs)
    done
qed

lemma readLit_quote_open:
  assumes q: "quote q" and s: "list_all (inert q) s" and src: "src (rd p) = map Rune s"
    and e: "err p = None"
  shows "\<exists>p1. readLit q p = Done (q # s, p1)
        \<and> err p1 = Some (LineErr \<lparr>fname = name p, pos = advPos s (npos p),
                          text' = Sprintf ''unexpected token %s - wanted %s''
                                    [TokName EOF, TokName (RuneTok q)]\<rparr>)
        \<and> tok p1 = EOF \<and> frame p p1"
proof (cases s)
  case Nil
  with src have rr: "readRune p = (Inl IoEOF, setEOF (p\<lparr>rd := (rd p)\<lparr>lastRune := None\<rparr>\<rparr>))"
    by (simp add: readRune_Nil)
  show ?thesis
    unfolding readLit_def
    apply (subst readLit_loop.simps)
    apply (simp add: readLit_switch_open [OF q] rr bindR_def quote_not_zero [OF q])
    using src e Nil
    apply (simp add: prim_defs frame_def)
    done
next
  case (Cons c cs)
  let ?p = "moveWith c (p\<lparr>rd := (rd p)\<lparr>src := map Rune cs, lastRune := Some c\<rparr>\<rparr>)"
  from src Cons have rr: "readRune p = (Inr c, ?p)"
    by (simp add: readRune_Cons)
  have step: "readLit q p = readLit_loop [q] q c ?p"
    unfolding readLit_def
    by (subst readLit_loop.simps) (simp add: readLit_switch_open [OF q] rr bindR_def)
  have "\<exists>p1. readLit_loop [q] q c ?p = Done ([q] @ c # cs, p1)
        \<and> err p1 = Some (LineErr \<lparr>fname = name ?p, pos = advPos cs (npos ?p),
                          text' = Sprintf ''unexpected token %s - wanted %s''
                                    [TokName EOF, TokName (RuneTok q)]\<rparr>)
        \<and> tok p1 = EOF \<and> frame ?p p1"
    using q s e Cons by (intro readLit_loop_open_eof) (simp_all add: prim_defs)
  then obtain p1 where
    "readLit_loop [q] q c ?p = Done ([q] @ c # cs, p1)"
    "err p1 = Some (LineErr \<lparr>fname = name ?p, pos = advPos cs (npos ?p),
                          text' = Sprintf ''unexpected token %s - wanted %s''
                                    [TokName EOF, TokName (RuneTok q)]\<rparr>)"
    "tok p1 = EOF" "frame ?p p1"
    by blast
  then show ?thesis
    using step Cons by (intro exI [of _ p1]) (simp add: prim_defs frame_def)
qed



lemma quote_not_keyword:
  "quote q \<Longrightarrow> q # s \<noteq> ''if'' \<and> q # s \<noteq> ''while'' \<and> q # s \<noteq> ''for''"
  by (auto simp: quote_def)

section \<open>The claims\<close>

text \<open>
  C1. The \<^verbatim>\<open>if\<close>, \<^verbatim>\<open>while\<close> and \<^verbatim>\<open>for\<close> arms drop the count that \<^verbatim>\<open>p.commands\<close> returns, so
  an empty body is accepted: \<^verbatim>\<open>if true; then fi\<close>, \<^verbatim>\<open>while true; do done\<close> and
  \<^verbatim>\<open>for i in a b; do done\<close> parse with no error and an empty statement sequence, whereas
  the block and subshell arms report \<^verbatim>\<open>wanted command\<close>.
\<close>

theorem C1_empty_bodies_accepted:
  "Parse 20 (map Rune ''if true; then fi'') nm =
     Done (\<lparr>Stmts = [IfStmt (Some (Command [Word [Lit ''true'']] False)) [] [] []]\<rparr>, None)
   \<and> Parse 20 (map Rune ''while true; do done'') nm =
     Done (\<lparr>Stmts = [WhileStmt (Some (Command [Word [Lit ''true'']] False)) []]\<rparr>, None)
   \<and> Parse 20 (map Rune ''for i in a b; do done'') nm =
     Done (\<lparr>Stmts = [ForStmt (Lit ''i'') [Word [Lit ''a''], Word [Lit ''b'']] []]\<rparr>, None)
   \<and> Parse 20 (map Rune ''{ }'') nm =
     Done (\<lparr>Stmts = [Block []]\<rparr>,
           Some (LineErr \<lparr>fname = nm, pos = \<lparr>line = 1, col = 3\<rparr>,
                          text' = Sprintf ''unexpected token %s - wanted %s''
                                    [TokName RBRACE, Str ''command'']\<rparr>))
   \<and> Parse 20 (map Rune ''( )'') nm =
     Done (\<lparr>Stmts = [Subshell []]\<rparr>,
           Some (LineErr \<lparr>fname = nm, pos = \<lparr>line = 1, col = 3\<rparr>,
                          text' = Sprintf ''unexpected token %s - wanted %s''
                                    [TokName RPAREN, Str ''command'']\<rparr>))
   \<and> Parse 20 (map Rune ''if true; then echo hi; fi'') nm =
     Done (\<lparr>Stmts = [IfStmt (Some (Command [Word [Lit ''true'']] False))
                        [Command [Word [Lit ''echo''], Word [Lit ''hi'']] False] [] []]\<rparr>, None)"
  by code_simp

text \<open>
  C3. The input \<^verbatim>\<open>echo if\<close> parses without error as one \<open>Command\<close> whose arguments are the
  words \<^verbatim>\<open>echo\<close> and \<^verbatim>\<open>if\<close>; no \<open>IfStmt\<close> is built. The same holds for each of the ten
  keyword spellings in the place of \<^verbatim>\<open>if\<close>.
\<close>

theorem C3_echo_if:
  "Parse 20 (map Rune ''echo if'') nm =
     Done (\<lparr>Stmts = [Command [Word [Lit ''echo''], Word [Lit ''if'']] False]\<rparr>, None)
   \<and> list_all
        (\<lambda>kw. Parse 20 (map Rune (''echo '' @ kw)) nm =
                Done (\<lparr>Stmts = [Command [Word [Lit ''echo''], Word [Lit kw]] False]\<rparr>, None))
        (map reservedLits [IF, THEN, ELIF, ELSE, FI, WHILE, FOR, IN, DO, DONE])"
  by code_simp

text \<open>
  C4. The binary operators nest to the right: in \<^verbatim>\<open>a && b && c\<close> the right operand of the
  first \<^verbatim>\<open>&&\<close> is the parse of the rest of the line, and likewise for \<^verbatim>\<open>||\<close>, for the pipe
  and for a line that mixes them.
\<close>

theorem C4_binary_right_assoc:
  "Parse 20 (map Rune ''a && b && c'') nm =
     Done (\<lparr>Stmts = [BinaryExpr LAND (Command [Word [Lit ''a'']] False)
                        (Some (BinaryExpr LAND (Command [Word [Lit ''b'']] False)
                                 (Some (Command [Word [Lit ''c'']] False))))]\<rparr>, None)
   \<and> Parse 20 (map Rune ''a || b || c'') nm =
     Done (\<lparr>Stmts = [BinaryExpr LOR (Command [Word [Lit ''a'']] False)
                        (Some (BinaryExpr LOR (Command [Word [Lit ''b'']] False)
                                 (Some (Command [Word [Lit ''c'']] False))))]\<rparr>, None)
   \<and> Parse 20 (map Rune ''a | b | c'') nm =
     Done (\<lparr>Stmts = [BinaryExpr OR (Command [Word [Lit ''a'']] False)
                        (Some (BinaryExpr OR (Command [Word [Lit ''b'']] False)
                                 (Some (Command [Word [Lit ''c'']] False))))]\<rparr>, None)
   \<and> Parse 20 (map Rune ''a && b || c | d e'') nm =
     Done (\<lparr>Stmts = [BinaryExpr LAND (Command [Word [Lit ''a'']] False)
                        (Some (BinaryExpr LOR (Command [Word [Lit ''b'']] False)
                                 (Some (BinaryExpr OR (Command [Word [Lit ''c'']] False)
                                          (Some (Command [Word [Lit ''d''], Word [Lit ''e'']]
                                                   False))))))]\<rparr>, None)"
  by code_simp

text \<open>
  C6. For a name that is one literal the claim holds: \<^verbatim>\<open>123abc() { :; }\<close> fails with the
  invalid-function-name error at line 1, column 1, the position of \<^verbatim>\<open>123abc\<close> (the \<^verbatim>\<open>(\<close> is
  at column 7), and \<^verbatim>\<open>foo() { echo hi; }\<close> parses without error as a function declaration
  named \<^verbatim>\<open>foo\<close> whose body is a block with one command. But \<^verbatim>\<open>fpos\<close> and \<^verbatim>\<open>fval\<close> are
  \<^verbatim>\<open>p.lpos\<close> and \<^verbatim>\<open>p.lval\<close> after \<^verbatim>\<open>p.word()\<close>, the position and text of the last token
  of the word, not of the word: \<^verbatim>\<open>a$b() { :; }\<close> is accepted as a function named \<^verbatim>\<open>b\<close>, and
  \<^verbatim>\<open>a$1() { :; }\<close> fails with the name \<^verbatim>\<open>1\<close> at column 3, where the \<^verbatim>\<open>1\<close> stands, not at
  column 1, where the name word starts.
\<close>

theorem C6_function_name:
  "Parse 20 (map Rune ''123abc() { :; }'') nm =
     Done (\<lparr>Stmts = [FuncDecl (Lit ''123abc'') None]\<rparr>,
           Some (LineErr \<lparr>fname = nm, pos = \<lparr>line = 1, col = 1\<rparr>,
                          text' = Sprintf ''invalid func name %q'' [Quoted ''123abc'']\<rparr>))
   \<and> Parse 20 (map Rune ''foo() { echo hi; }'') nm =
     Done (\<lparr>Stmts = [FuncDecl (Lit ''foo'')
                        (Some (Block [Command [Word [Lit ''echo''], Word [Lit ''hi'']] False]))]\<rparr>,
           None)
   \<and> Parse 20 (map Rune ''a$b() { :; }'') nm =
     Done (\<lparr>Stmts = [FuncDecl (Lit ''b'') (Some (Block [Command [Word [Lit '':'']] False]))]\<rparr>,
           None)
   \<and> Parse 20 (map Rune ''a$1() { :; }'') nm =
     Done (\<lparr>Stmts = [FuncDecl (Lit ''1'') None]\<rparr>,
           Some (LineErr \<lparr>fname = nm, pos = \<lparr>line = 1, col = 3\<rparr>,
                          text' = Sprintf ''invalid func name %q'' [Quoted ''1'']\<rparr>))"
  by code_simp

text \<open>
  C9. The stop token reaches the simple commands that the statement list of a subshell or
  of a command substitution parses itself: \<^verbatim>\<open>( echo hi )\<close> and \<^verbatim>\<open>$(echo hi)\<close> parse, while a
  block passes no stop token, so \<^verbatim>\<open>{ echo hi }\<close> fails with
  \<^verbatim>\<open>unexpected token } after command\<close> at the \<^verbatim>\<open>}\<close> and \<^verbatim>\<open>{ echo hi; }\<close> parses. But
  \<^verbatim>\<open>binaryExpr\<close> and the function-body arm call \<^verbatim>\<open>p.command()\<close> with no stop token, so a
  \<^verbatim>\<open>)\<close> right after the last argument of a right operand or of a function body does not
  end that command: \<^verbatim>\<open>( a && b )\<close>, \<^verbatim>\<open>$(a && b)\<close> and \<^verbatim>\<open>( f() echo )\<close> fail with
  \<^verbatim>\<open>unexpected token ) after command\<close> at the \<^verbatim>\<open>)\<close>.
\<close>

theorem C9_stop_tokens:
  "Parse 20 (map Rune ''( echo hi )'') nm =
     Done (\<lparr>Stmts = [Subshell [Command [Word [Lit ''echo''], Word [Lit ''hi'']] False]]\<rparr>, None)
   \<and> Parse 20 (map Rune ''$(echo hi)'') nm =
     Done (\<lparr>Stmts = [Command [Word [CmdSubst
                          [Command [Word [Lit ''echo''], Word [Lit ''hi'']] False]]] False]\<rparr>,
           None)
   \<and> Parse 20 (map Rune ''{ echo hi }'') nm =
     Done (\<lparr>Stmts = [Block [Command [Word [Lit ''echo''], Word [Lit ''hi'']] False]]\<rparr>,
           Some (LineErr \<lparr>fname = nm, pos = \<lparr>line = 1, col = 11\<rparr>,
                          text' = Sprintf ''unexpected token %s after %s''
                                    [TokName RBRACE, Str ''command'']\<rparr>))
   \<and> Parse 20 (map Rune ''{ echo hi; }'') nm =
     Done (\<lparr>Stmts = [Block [Command [Word [Lit ''echo''], Word [Lit ''hi'']] False]]\<rparr>, None)
   \<and> Parse 20 (map Rune ''( a && b )'') nm =
     Done (\<lparr>Stmts = [Subshell [BinaryExpr LAND (Command [Word [Lit ''a'']] False)
                                    (Some (Command [Word [Lit ''b'']] False))]]\<rparr>,
           Some (LineErr \<lparr>fname = nm, pos = \<lparr>line = 1, col = 10\<rparr>,
                          text' = Sprintf ''unexpected token %s after %s''
                                    [TokName RPAREN, Str ''command'']\<rparr>))
   \<and> Parse 20 (map Rune ''$(a && b)'') nm =
     Done (\<lparr>Stmts = [Command [Word [CmdSubst
                          [BinaryExpr LAND (Command [Word [Lit ''a'']] False)
                             (Some (Command [Word [Lit ''b'']] False))]]] False]\<rparr>,
           Some (LineErr \<lparr>fname = nm, pos = \<lparr>line = 1, col = 9\<rparr>,
                          text' = Sprintf ''unexpected token %s after %s''
                                    [TokName RPAREN, Str ''command'']\<rparr>))
   \<and> Parse 20 (map Rune ''( f() echo )'') nm =
     Done (\<lparr>Stmts = [Subshell [FuncDecl (Lit ''f'')
                                    (Some (Command [Word [Lit ''echo'']] False))]]\<rparr>,
           Some (LineErr \<lparr>fname = nm, pos = \<lparr>line = 1, col = 12\<rparr>,
                          text' = Sprintf ''unexpected token %s after %s''
                                    [TokName RPAREN, Str ''command'']\<rparr>))"
  by code_simp








text \<open>
  C7. The three expansion forms: \<^verbatim>\<open>${foo}\<close> gives a \<open>ParamExp\<close> with the text up to the \<^verbatim>\<open>}\<close>,
  \<^verbatim>\<open>$(echo hi)\<close> a \<open>CmdSubst\<close> with the statements up to the \<^verbatim>\<open>)\<close>, and \<^verbatim>\<open>$bar\<close> a \<open>Lit\<close>
  with the text \<^verbatim>\<open>$bar\<close>. The text of a \<open>ParamExp\<close> is not always the raw text: \<^verbatim>\<open>readUntil\<close>
  compares \<^verbatim>\<open>doToken(r, p.readOnly)\<close> with the closing token for every rune, and for \<^verbatim>\<open>&\<close>,
  \<^verbatim>\<open>|\<close> and \<^verbatim>\<open>>\<close> that probes and consumes a following rune of the same kind, so \<^verbatim>\<open>${a&&b}\<close>
  gives the text \<^verbatim>\<open>a&b\<close>.
\<close>

theorem C7_expansion_forms:
  "Parse 20 (map Rune ''${a&&b}'') nm =
     Done (\<lparr>Stmts = [Command [Word [ParamExp ''a&b'']] False]\<rparr>, None)
   \<and> Parse 20 (map Rune ''${foo}'') nm =
     Done (\<lparr>Stmts = [Command [Word [ParamExp ''foo'']] False]\<rparr>, None)
   \<and> Parse 20 (map Rune ''$(echo hi)'') nm =
     Done (\<lparr>Stmts = [Command [Word [CmdSubst
                          [Command [Word [Lit ''echo''], Word [Lit ''hi'']] False]]] False]\<rparr>,
           None)
   \<and> Parse 20 (map Rune ''$bar'') nm =
     Done (\<lparr>Stmts = [Command [Word [Lit ''$bar'']] False]\<rparr>, None)
   \<and> Parse 20 (map Rune ''a${b}$(c)$d'') nm =
     Done (\<lparr>Stmts = [Command [Word [Lit ''a'', ParamExp ''b'',
                                       CmdSubst [Command [Word [Lit ''c'']] False],
                                       Lit ''$d'']] False]\<rparr>, None)"
  by code_simp

text \<open>
  End of input inside a quoted region whose runes keep it open: when the rest of the input
  is a delimiter \<open>q\<close> and a body \<open>s\<close> of such runes, the scan latches (if no error is latched
  yet) \<^verbatim>\<open>unexpected token EOF - wanted q\<close> at the cursor after the last rune of the input,
  wherever the scan starts; and \<^verbatim>\<open>Parse\<close> of such an input returns this error, at the
  position after the whole input counted from 1:1.
\<close>

lemma unterminated_quote_reported:
  assumes q: "quote q" and s: "list_all (inert q) s" and k: "3 \<le> k"
  shows "(\<forall>p. src (rd p) = map Rune (q # s) \<and> err p = None \<longrightarrow>
            (\<exists>p1. next' p = Done p1
                \<and> err p1 = Some (LineErr \<lparr>fname = name p, pos = advPos (q # s) (npos p),
                                  text' = Sprintf ''unexpected token %s - wanted %s''
                                            [TokName EOF, TokName (RuneTok q)]\<rparr>)))
         \<and> Parse k (map Rune (q # s)) nm =
     Done (\<lparr>Stmts = [Command [Word [Lit (q # s)]] False]\<rparr>,
           Some (LineErr \<lparr>fname = nm, pos = advPos (q # s) \<lparr>line = 1, col = 1\<rparr>,
                          text' = Sprintf ''unexpected token %s - wanted %s''
                                    [TokName EOF, TokName (RuneTok q)]\<rparr>))"
proof (intro conjI allI impI)
  fix p :: parser
  assume a: "src (rd p) = map Rune (q # s) \<and> err p = None"
  then have "src (rd p) = Rune q # map Rune s"
    by simp
  from next'_quote [OF q this] obtain p2 where
    n: "next' p = bindR (readLit q p2) (\<lambda>(s, p1). Done (advance LIT s p1))"
    and p2: "src (rd p2) = map Rune s" "err p2 = err p" "npos p2 = advPos [q] (npos p)"
      "name p2 = name p"
    by blast
  have "err p2 = None"
    using p2 a by simp
  from readLit_quote_open [OF q s p2(1) this] obtain p1 where
    r: "readLit q p2 = Done (q # s, p1)"
    and p1: "err p1 = Some (LineErr \<lparr>fname = name p2, pos = advPos s (npos p2),
                          text' = Sprintf ''unexpected token %s - wanted %s''
                                    [TokName EOF, TokName (RuneTok q)]\<rparr>)"
    by blast
  from n r have "next' p = Done (advance LIT (q # s) p1)"
    by (simp add: bindR_def)
  moreover have "err (advance LIT (q # s) p1) =
      Some (LineErr \<lparr>fname = name p, pos = advPos (q # s) (npos p),
                     text' = Sprintf ''unexpected token %s - wanted %s''
                               [TokName EOF, TokName (RuneTok q)]\<rparr>)"
    using p1 p2 by (simp add: prim_defs)
  ultimately show "\<exists>p1. next' p = Done p1
      \<and> err p1 = Some (LineErr \<lparr>fname = name p, pos = advPos (q # s) (npos p),
                        text' = Sprintf ''unexpected token %s - wanted %s''
                                  [TokName EOF, TokName (RuneTok q)]\<rparr>)"
    by blast
next
  let ?p0 = "push (SeqPtr 0) (init (map Rune (q # s)) nm)"
  let ?E = "LineErr \<lparr>fname = nm, pos = advPos (q # s) \<lparr>line = 1, col = 1\<rparr>,
                          text' = Sprintf ''unexpected token %s - wanted %s''
                                    [TokName EOF, TokName (RuneTok q)]\<rparr>"
  from k obtain k' where k': "k = Suc (Suc (Suc k'))"
    by (metis Suc_le_D numeral_3_eq_3 Suc_le_mono)
  have "src (rd ?p0) = Rune q # map Rune s"
    by (simp add: init_def push_def)
  from next'_quote [OF q this] obtain p2 where
    n: "next' ?p0 = bindR (readLit q p2) (\<lambda>(s, p1). Done (advance LIT s p1))"
    and p2: "src (rd p2) = map Rune s" "err p2 = err ?p0" "npos p2 = advPos [q] (npos ?p0)"
      "stack p2 = stack ?p0" "seqs p2 = seqs ?p0" "nodes p2 = nodes ?p0"
      "fresh p2 = fresh ?p0" "name p2 = name ?p0"
    by blast
  have "err p2 = None"
    using p2 by (simp add: init_def push_def)
  from readLit_quote_open [OF q s p2(1) this] obtain p1 where
    r: "readLit q p2 = Done (q # s, p1)"
    and p1: "err p1 = Some (LineErr \<lparr>fname = name p2, pos = advPos s (npos p2),
                          text' = Sprintf ''unexpected token %s - wanted %s''
                                    [TokName EOF, TokName (RuneTok q)]\<rparr>)"
      "tok p1 = EOF" "frame p2 p1"
    by blast
  let ?P = "advance LIT (q # s) p1"
  have nx: "next' ?p0 = Done ?P"
    using n r by (simp add: bindR_def)
  have eP: "err ?P = Some ?E"
    using p1 p2 by (simp add: prim_defs init_def)
  have "\<exists>p3. program (Suc (Suc (Suc k'))) ?P = Done p3
           \<and> seqs p3 0 = [Command [Word [Lit (q # s)]] False] \<and> err p3 = err ?P"
    using p1 p2 quote_not_keyword [OF q, of s]
    by (intro program_single_literal) (simp_all add: prim_defs frame_def init_def)
  then obtain p3 where "program k ?P = Done p3"
    "seqs p3 0 = [Command [Word [Lit (q # s)]] False]" "err p3 = err ?P"
    using k' by blast
  then show "Parse k (map Rune (q # s)) nm =
     Done (\<lparr>Stmts = [Command [Word [Lit (q # s)]] False]\<rparr>,
           Some (LineErr \<lparr>fname = nm, pos = advPos (q # s) \<lparr>line = 1, col = 1\<rparr>,
                          text' = Sprintf ''unexpected token %s - wanted %s''
                                    [TokName EOF, TokName (RuneTok q)]\<rparr>))"
    using nx eP by (simp add: Parse_def bindR_def)
qed

text \<open>
  C8. For a region that no \<^verbatim>\<open>$\<close> interrupts the claim holds: \<^verbatim>\<open>"abc\<close> fails with
  \<^verbatim>\<open>unexpected token EOF - wanted "\<close> at 1:5, the cursor after the last rune. But in a
  double-quoted or backquoted region \<^verbatim>\<open>readLit\<close> leaves its loop at a \<^verbatim>\<open>$\<close>, and the open
  delimiter, a local variable, is lost: \<^verbatim>\<open>"a$b\<close> reaches the end of input with the region
  open and parses with no error, as the words \<^verbatim>\<open>"a\<close> and \<^verbatim>\<open>$b\<close> joined; the closed
  \<^verbatim>\<open>"a$b"\<close> is reported as unterminated, its closing delimiter opening a new region.
\<close>

theorem C8_open_quote_lost_at_dollar:
  "Parse 20 (map Rune (CHR 0x22 # ''abc'')) nm =
     Done (\<lparr>Stmts = [Command [Word [Lit (CHR 0x22 # ''abc'')]] False]\<rparr>,
           Some (LineErr \<lparr>fname = nm, pos = \<lparr>line = 1, col = 5\<rparr>,
                          text' = Sprintf ''unexpected token %s - wanted %s''
                                    [TokName EOF, TokName (RuneTok (CHR 0x22))]\<rparr>))
   \<and> Parse 20 (map Rune (CHR 0x22 # ''a$b'')) nm =
     Done (\<lparr>Stmts = [Command [Word [Lit [CHR 0x22, CHR ''a''], Lit ''$b'']] False]\<rparr>, None)
   \<and> Parse 20 (map Rune (CHR 0x60 # ''a$b'')) nm =
     Done (\<lparr>Stmts = [Command [Word [Lit [CHR 0x60, CHR ''a''], Lit ''$b'']] False]\<rparr>, None)
   \<and> Parse 20 (map Rune (CHR 0x22 # ''a$b'' @ [CHR 0x22])) nm =
     Done (\<lparr>Stmts = [Command [Word [Lit [CHR 0x22, CHR ''a''],
                                       Lit [CHR ''$'', CHR ''b'', CHR 0x22]]] False]\<rparr>,
           Some (LineErr \<lparr>fname = nm, pos = \<lparr>line = 1, col = 6\<rparr>,
                          text' = Sprintf ''unexpected token %s - wanted %s''
                                    [TokName EOF, TokName (RuneTok (CHR 0x22))]\<rparr>))"
  by code_simp

text \<open>
  C10. When \<^verbatim>\<open>word\<close> is entered on a token that is neither a literal nor \<^verbatim>\<open>$\<close>, it returns
  having added a \<open>Word\<close> with no parts to the slot on top of the builder stack (appended to
  a sequence slot, or stored in an empty single-node slot), and the error slot holds
  \<^verbatim>\<open>unexpected token ... - wanted word\<close> unless an error was latched before.
\<close>

theorem C10_word_without_parts:
  assumes "tok p \<noteq> LIT" "tok p \<noteq> EXP" "stack p \<noteq> []"
    and "(last (stack p) = SeqPtr a \<and> a \<noteq> fresh p)
         \<or> (last (stack p) = NodePtr a \<and> nodes p a = None)"
  shows "\<exists>p1. word cl (Suc k) p = Done p1
          \<and> (case last (stack p) of
                SeqPtr b \<Rightarrow> seqs p1 b = seqs p b @ [Word []]
              | NodePtr b \<Rightarrow> nodes p1 b = Some (Word []))
          \<and> err p1 = (case err p of
                         None \<Rightarrow> Some (LineErr \<lparr>fname = name p,
                                   pos = (if tok p = EOF then npos p else pos p),
                                   text' = Sprintf ''unexpected token %s - wanted %s''
                                             [TokName (tok p), Str ''word'']\<rparr>)
                       | Some e \<Rightarrow> Some e)"
  using assms
  by (auto simp: word_def got_def peek_def prim_defs popAdd_def pop_def add_def bindR_def
           split: option.splits)

text \<open>
  The theorem at the state \<^verbatim>\<open>word\<close> is entered in for the redirect of \<^verbatim>\<open>echo > ;\<close> cut down
  to its token and stack, and the whole parse of \<^verbatim>\<open>echo > ;\<close>, whose tree holds the empty word
  beside the error.
\<close>

theorem C10_word_without_parts_witness:
  "tok ((init [] ''f'')\<lparr>tok := SEMICOLON, stack := [SeqPtr 0, NodePtr 1], fresh := 2\<rparr>) \<noteq> LIT
   \<and> tok ((init [] ''f'')\<lparr>tok := SEMICOLON, stack := [SeqPtr 0, NodePtr 1], fresh := 2\<rparr>) \<noteq> EXP
   \<and> (\<exists>p1. word (\<lambda>p. Timeout) (Suc 0)
              ((init [] ''f'')\<lparr>tok := SEMICOLON, stack := [SeqPtr 0, NodePtr 1], fresh := 2\<rparr>)
            = Done p1
          \<and> nodes p1 1 = Some (Word [])
          \<and> err p1 = Some (LineErr \<lparr>fname = ''f'', pos = \<lparr>line = 0, col = 0\<rparr>,
                             text' = Sprintf ''unexpected token %s - wanted %s''
                                       [TokName SEMICOLON, Str ''word'']\<rparr>))
   \<and> Parse 20 (map Rune ''echo > ;'') ''f'' =
     Done (\<lparr>Stmts = [Command [Word [Lit ''echo''], Redirect RDROUT (Some (Word []))] False]\<rparr>,
           Some (LineErr \<lparr>fname = ''f'', pos = \<lparr>line = 1, col = 8\<rparr>,
                          text' = Sprintf ''unexpected token %s - wanted %s''
                                    [TokName SEMICOLON, Str ''word'']\<rparr>))"
proof -
  let ?p = "(init [] ''f'')\<lparr>tok := SEMICOLON, stack := [SeqPtr 0, NodePtr 1], fresh := 2\<rparr>"
  have e: "Parse 20 (map Rune ''echo > ;'') ''f'' =
     Done (\<lparr>Stmts = [Command [Word [Lit ''echo''], Redirect RDROUT (Some (Word []))] False]\<rparr>,
           Some (LineErr \<lparr>fname = ''f'', pos = \<lparr>line = 1, col = 8\<rparr>,
                          text' = Sprintf ''unexpected token %s - wanted %s''
                                    [TokName SEMICOLON, Str ''word'']\<rparr>))"
    by code_simp
  have h: "tok ?p \<noteq> LIT" "tok ?p \<noteq> EXP" "stack ?p \<noteq> []"
    "(last (stack ?p) = SeqPtr 1 \<and> 1 \<noteq> fresh ?p)
       \<or> (last (stack ?p) = NodePtr 1 \<and> nodes ?p 1 = None)"
    by (simp_all add: init_def)
  from C10_word_without_parts [OF h, of "\<lambda>p. Timeout" 0] h e show ?thesis
    by (simp add: init_def)
qed

end
